theory Spec2Isabelle
  imports Complex_Main "HOL-Library.Finite_Map"
begin

section \<open>Python values, exceptions and the host libraries\<close>

text \<open>
  The documents handled by \<^verbatim>\<open>Config/Agent.py\<close> are the Python values that the
  \<^verbatim>\<open>json\<close> and \<^verbatim>\<open>yaml\<close> libraries read and write. A Python \<^verbatim>\<open>dict\<close> with string keys is
  a finite map: Python's \<^verbatim>\<open>==\<close> on dictionaries ignores insertion order, and so does
  equality of finite maps. A float is kept as the rational it denotes; no arithmetic is
  done on it.
\<close>

datatype pyval =
    PNone
  | PBool bool
  | PInt int
  | PFloat rat
  | PStr string
  | PList "pyval list"
  | PDict "(string, pyval) fmap"

text \<open>Every exception the modelled code can raise is a value.\<close>

datatype error =
    FileNotFoundError
  | FileExistsError
  | IsADirectoryError
  | NotADirectoryError
  | JSONDecodeError
  | YAMLError
  | TypeError
  | KeyError
  | AttributeError
  | ImportError
  | ValueError
  | OSError

text \<open>
  A command plugin. \<^verbatim>\<open>fn_name\<close> is the callable's \<^verbatim>\<open>__name__\<close>, \<^verbatim>\<open>fn_params\<close> its
  signature: each formal parameter with its default, if it declares one. An instance
  either has a \<^verbatim>\<open>commands\<close> attribute (a mapping from display name to callable, in
  iteration order) or has none. A module maps an attribute name to the result of calling
  the class of that name without arguments.
\<close>

record callable =
  fn_name :: string
  fn_params :: "(string \<times> pyval option) list"

record plugin_instance =
  commands_attr :: "(string \<times> callable) list option"

type_synonym pymodule = "string \<Rightarrow> (error + plugin_instance) option"

text \<open>
  What the code takes from outside the repository is a parameter of the model: the
  working directory (the components of its absolute path), the \<^verbatim>\<open>json\<close> and \<^verbatim>\<open>yaml\<close> codecs (a parser returns \<open>None\<close> where the
  library raises its decode error), the result of \<^verbatim>\<open>glob.glob("commands/*.py")\<close> and
  \<^verbatim>\<open>importlib.import_module\<close>.
\<close>

record host =
  cwd :: "string list"
  json_dumps :: "pyval \<Rightarrow> string"
  json_loads :: "string \<Rightarrow> pyval option"
  yaml_safe_dump :: "pyval \<Rightarrow> string"
  yaml_safe_load :: "string \<Rightarrow> pyval option"
  glob_commands :: "string list"
  import_module :: "string \<Rightarrow> error + pymodule"

section \<open>Strings and path names\<close>

text \<open>
  A string is a sequence of characters with code points up to 255; a file holds the text
  that Python reads from it. Characters above that range, and files that do not decode,
  are outside the model. \<open>utf8_len\<close> is the number of bytes of a string in the
  file-system encoding: two for a character from 128 on.
\<close>

definition utf8_len :: "string \<Rightarrow> nat" where
  "utf8_len s = length s + length (filter (\<lambda>c. 128 \<le> (of_char c :: nat)) s)"

definition isspace :: "char \<Rightarrow> bool" where
  "isspace c = (let n = (of_char c :: nat) in
     (9 \<le> n \<and> n \<le> 13) \<or> (28 \<le> n \<and> n \<le> 32) \<or> n = 133 \<or> n = 160)"

definition strip :: "string \<Rightarrow> string" where
  "strip s = rev (dropWhile isspace (rev (dropWhile isspace s)))"

text \<open>An upper-case letter becomes lower case by setting bit 5 (adding 32).\<close>

definition lower_char :: "char \<Rightarrow> char" where
  "lower_char c = (let n = (of_char c :: nat) in
     if (65 \<le> n \<and> n \<le> 90) \<or> (192 \<le> n \<and> n \<le> 222 \<and> n \<noteq> 215)
     then (case c of Char b0 b1 b2 b3 b4 b5 b6 b7 \<Rightarrow> Char b0 b1 b2 b3 b4 True b6 b7)
     else c)"

definition lower :: "string \<Rightarrow> string" where
  "lower s = map lower_char s"

definition basename :: "string \<Rightarrow> string" where
  "basename p = rev (takeWhile (\<lambda>c. c \<noteq> CHR ''/'') (rev p))"

text \<open>
  \<^verbatim>\<open>os.path.splitext(b)[0]\<close> for a name without separator: the part before the last
  dot, unless only dots come before it.
\<close>

definition splitext_root :: "string \<Rightarrow> string" where
  "splitext_root b =
     (case dropWhile (\<lambda>c. c \<noteq> CHR ''.'') (rev b) of
        [] \<Rightarrow> b
      | _ # pre \<Rightarrow> if list_ex (\<lambda>c. c \<noteq> CHR ''.'') pre then rev pre else b)"

text \<open>\<^verbatim>\<open>s.split("/")\<close> and \<^verbatim>\<open>"/".join(comps)\<close>.\<close>

fun split_on :: "char \<Rightarrow> string \<Rightarrow> string list" where
  "split_on d [] = [[]]"
| "split_on d (c # s) =
     (if c = d then [] # split_on d s
      else (case split_on d s of [] \<Rightarrow> [[c]] | x # xs \<Rightarrow> (c # x) # xs))"

fun join_slash :: "string list \<Rightarrow> string" where
  "join_slash [] = []"
| "join_slash [c] = c"
| "join_slash (c # cs) = c @ ''/'' @ join_slash cs"

text \<open>
  \<^verbatim>\<open>os.path.join\<close>: a component that starts with a separator discards what came before
  it.
\<close>

definition join2 :: "string \<Rightarrow> string \<Rightarrow> string" where
  "join2 a b =
     (if b \<noteq> [] \<and> hd b = CHR ''/'' then b
      else if a = [] \<or> last a = CHR ''/'' then a @ b
      else a @ ''/'' @ b)"

definition os_path_join :: "string \<Rightarrow> string list \<Rightarrow> string" where
  "os_path_join a ps = foldl join2 a ps"

text \<open>
  \<^verbatim>\<open>os.path.normpath\<close>: the loop over the components, with the components kept so far,
  and the function. Normalisation is on the text of the path: \<^verbatim>\<open>..\<close> removes the
  component before it whether or not that names a directory.
\<close>

fun norm_comps :: "bool \<Rightarrow> string list \<Rightarrow> string list \<Rightarrow> string list" where
  "norm_comps initial_slashes [] new_comps = new_comps"
| "norm_comps initial_slashes (c # comps) new_comps =
     (if c = [] \<or> c = ''.'' then norm_comps initial_slashes comps new_comps
      else if c \<noteq> ''..'' \<or> (\<not> initial_slashes \<and> new_comps = [])
                \<or> (new_comps \<noteq> [] \<and> last new_comps = ''..'')
      then norm_comps initial_slashes comps (new_comps @ [c])
      else if new_comps \<noteq> [] then norm_comps initial_slashes comps (butlast new_comps)
      else norm_comps initial_slashes comps new_comps)"

definition normpath :: "string \<Rightarrow> string" where
  "normpath s =
     (if s = [] then ''.''
      else
        (let initial_slashes =
               (if take 2 s = ''//'' \<and> take 3 s \<noteq> ''///'' then 2
                else if hd s = CHR ''/'' then 1 else (0 :: nat));
             path = replicate initial_slashes (CHR ''/'')
                      @ join_slash (norm_comps (initial_slashes \<noteq> 0) (split_on (CHR ''/'') s) [])
         in if path = [] then ''.'' else path))"

definition getcwd :: "host \<Rightarrow> string" where
  "getcwd H = (if cwd H = [] then ''/'' else concat (map (\<lambda>c. ''/'' @ c) (cwd H)))"

definition isabs :: "string \<Rightarrow> bool" where
  "isabs s = (s \<noteq> [] \<and> hd s = CHR ''/'')"

definition abspath :: "host \<Rightarrow> string \<Rightarrow> string" where
  "abspath H s = normpath (if isabs s then s else os_path_join (getcwd H) [s])"

section \<open>The file system\<close>

text \<open>
  The file system maps the absolute path of an entry, the list of its components below
  the root, to a regular file with its text or to a directory. The root is the empty path
  and always a directory. There are no links.
\<close>

type_synonym path = "string list"

datatype node = File string | Dir

type_synonym fsys = "path \<Rightarrow> node option"

definition node_at :: "fsys \<Rightarrow> path \<Rightarrow> node option" where
  "node_at fs p = (if p = [] then Some Dir else fs p)"

definition is_file :: "fsys \<Rightarrow> path \<Rightarrow> bool" where
  "is_file fs p = (case node_at fs p of Some (File _) \<Rightarrow> True | _ \<Rightarrow> False)"

definition is_dir :: "fsys \<Rightarrow> path \<Rightarrow> bool" where
  "is_dir fs p = (node_at fs p = Some Dir)"

definition is_under :: "path \<Rightarrow> path \<Rightarrow> bool" where
  "is_under d p = (take (length d) p = d)"

text \<open>
  What looking up a name in \<open>p\<close> reports when \<open>p\<close> is not a directory.
\<close>

definition not_a_dir :: "fsys \<Rightarrow> path \<Rightarrow> error" where
  "not_a_dir fs p = (if node_at fs p = None then FileNotFoundError else NotADirectoryError)"

text \<open>
  Path resolution as the operating system does it: each component is looked up in the
  directory reached so far, which has to be a directory; \<^verbatim>\<open>..\<close> leads to the parent of
  that directory. A component of more than 255 bytes is refused, and so is a path of
  4096 bytes or more. Python refuses a path with a null character before the system sees
  it. The last component need not exist.
\<close>

fun walk :: "fsys \<Rightarrow> path \<Rightarrow> string list \<Rightarrow> error + path" where
  "walk fs cur [] = Inr cur"
| "walk fs cur (c # cs) =
     (if \<not> is_dir fs cur then Inl (not_a_dir fs cur)
      else if c = [] \<or> c = ''.'' then walk fs cur cs
      else if c = ''..'' then walk fs (butlast cur) cs
      else if 255 < utf8_len c then Inl OSError
      else walk fs (cur @ [c]) cs)"

definition start_dir :: "host \<Rightarrow> string \<Rightarrow> path" where
  "start_dir H s = (if isabs s then [] else cwd H)"

definition refused :: "string \<Rightarrow> error option" where
  "refused s =
     (if CHR 0x00 \<in> set s then Some ValueError
      else if s = [] then Some FileNotFoundError
      else if 4096 \<le> utf8_len s then Some OSError
      else None)"

definition resolve :: "host \<Rightarrow> fsys \<Rightarrow> string \<Rightarrow> error + path" where
  "resolve H fs s =
     (case refused s of
        Some e \<Rightarrow> Inl e
      | None \<Rightarrow> walk fs (start_dir H s) (split_on (CHR ''/'') s))"

text \<open>\<^verbatim>\<open>os.path.exists\<close> answers \<^verbatim>\<open>False\<close> where resolution fails.\<close>

definition path_exists :: "host \<Rightarrow> fsys \<Rightarrow> string \<Rightarrow> bool" where
  "path_exists H fs s =
     (case resolve H fs s of Inl _ \<Rightarrow> False | Inr p \<Rightarrow> node_at fs p \<noteq> None)"

definition open_read :: "host \<Rightarrow> fsys \<Rightarrow> string \<Rightarrow> error + string" where
  "open_read H fs s =
     (case resolve H fs s of
        Inl e \<Rightarrow> Inl e
      | Inr p \<Rightarrow>
          (case node_at fs p of
             Some (File t) \<Rightarrow> Inr t
           | Some Dir \<Rightarrow> Inl IsADirectoryError
           | None \<Rightarrow> Inl FileNotFoundError))"

definition open_write :: "host \<Rightarrow> fsys \<Rightarrow> string \<Rightarrow> string \<Rightarrow> error + fsys" where
  "open_write H fs s t =
     (case resolve H fs s of
        Inl e \<Rightarrow> Inl e
      | Inr p \<Rightarrow>
          (case node_at fs p of
             Some Dir \<Rightarrow> Inl IsADirectoryError
           | _ \<Rightarrow> Inr (fs(p \<mapsto> File t))))"

definition os_remove :: "host \<Rightarrow> fsys \<Rightarrow> string \<Rightarrow> error + fsys" where
  "os_remove H fs s =
     (case resolve H fs s of
        Inl e \<Rightarrow> Inl e
      | Inr p \<Rightarrow>
          (case node_at fs p of
             Some (File _) \<Rightarrow> Inr (fs(p := None))
           | Some Dir \<Rightarrow> Inl IsADirectoryError
           | None \<Rightarrow> Inl FileNotFoundError))"

text \<open>
  \<^verbatim>\<open>os.makedirs\<close> without \<^verbatim>\<open>exist_ok\<close>: every directory on the way that is missing is
  made, then the last one, which must not exist. The directories made before a failure
  stay. Trailing separators are ignored, and a path that ends in a dot component is
  accepted when its directory was made on the way.
\<close>

fun makedirs_walk :: "fsys \<Rightarrow> path \<Rightarrow> string list \<Rightarrow> (error + path) \<times> fsys" where
  "makedirs_walk fs cur [] = (Inr cur, fs)"
| "makedirs_walk fs cur (c # cs) =
     (case node_at fs cur of
        Some (File _) \<Rightarrow> (Inl NotADirectoryError, fs)
      | nd \<Rightarrow>
          (let fs1 = (if nd = None then fs(cur \<mapsto> Dir) else fs) in
           if c = [] \<or> c = ''.'' then makedirs_walk fs1 cur cs
           else if c = ''..'' then makedirs_walk fs1 (butlast cur) cs
           else if 255 < utf8_len c then (Inl OSError, fs1)
           else makedirs_walk fs1 (cur @ [c]) cs))"

definition os_makedirs :: "host \<Rightarrow> fsys \<Rightarrow> string \<Rightarrow> (error + unit) \<times> fsys" where
  "os_makedirs H fs s =
     (case refused s of
        Some e \<Rightarrow> (Inl e, fs)
      | None \<Rightarrow>
          (let comps = rev (dropWhile (\<lambda>c. c = []) (rev (split_on (CHR ''/'') s))) in
           if \<not> is_dir fs (start_dir H s) then (Inl (not_a_dir fs (start_dir H s)), fs)
           else
             (case makedirs_walk fs (start_dir H s) comps of
                (Inl e, fs1) \<Rightarrow> (Inl e, fs1)
              | (Inr p, fs1) \<Rightarrow>
                  if node_at fs1 p = None then (Inr (), fs1(p \<mapsto> Dir))
                  else if comps \<noteq> [] \<and> last comps = ''.'' \<and> node_at fs p = None
                  then (Inr (), fs1)
                  else (Inl FileExistsError, fs1))))"

text \<open>
  \<^verbatim>\<open>shutil.rmtree\<close> removes a directory with everything below it. The root cannot be
  removed: its entries go and the call raises.
\<close>

definition shutil_rmtree :: "host \<Rightarrow> fsys \<Rightarrow> string \<Rightarrow> (error + unit) \<times> fsys" where
  "shutil_rmtree H fs s =
     (case resolve H fs s of
        Inl e \<Rightarrow> (Inl e, fs)
      | Inr p \<Rightarrow>
          (case node_at fs p of
             Some Dir \<Rightarrow>
               (if p = [] then Inl OSError else Inr (),
                \<lambda>q. if is_under p q then None else fs q)
           | Some (File _) \<Rightarrow> (Inl NotADirectoryError, fs)
           | None \<Rightarrow> (Inl FileNotFoundError, fs)))"

section \<open>Command discovery\<close>

type_synonym catalog = "(string \<times> string \<times> (string \<times> pyval) list) list"

definition get_command_params :: "callable \<Rightarrow> (string \<times> pyval) list" where
  "get_command_params func =
     map (\<lambda>(name, dflt). (name, case dflt of None \<Rightarrow> PNone | Some v \<Rightarrow> v)) (fn_params func)"

definition catalog_entries :: "(string \<times> callable) list \<Rightarrow> catalog" where
  "catalog_entries cs =
     map (\<lambda>(command_name, command_function).
            (command_name, fn_name command_function, get_command_params command_function)) cs"

text \<open>
  Importing the module of a command file and calling the class named after it, in lower
  case: lines 97 to 99 of the source.
\<close>

definition load_plugin :: "host \<Rightarrow> string \<Rightarrow> error + plugin_instance" where
  "load_plugin H command_file =
     (let module_name = splitext_root (basename command_file) in
      case import_module H (''commands.'' @ module_name) of
        Inl e \<Rightarrow> Inl e
      | Inr module_obj \<Rightarrow>
          (case module_obj (lower module_name) of
             None \<Rightarrow> Inl AttributeError
           | Some command_class \<Rightarrow> command_class))"

fun load_commands_loop :: "host \<Rightarrow> string list \<Rightarrow> catalog \<Rightarrow> error + catalog" where
  "load_commands_loop H [] commands = Inr commands"
| "load_commands_loop H (command_file # rest) commands =
     (case load_plugin H command_file of
        Inl e \<Rightarrow> Inl e
      | Inr command_class \<Rightarrow>
          (case commands_attr command_class of
             None \<Rightarrow> load_commands_loop H rest commands
           | Some cs \<Rightarrow> load_commands_loop H rest (commands @ catalog_entries cs)))"

definition load_commands :: "host \<Rightarrow> error + catalog" where
  "load_commands H = load_commands_loop H (glob_commands H) []"

section \<open>Creating an agent\<close>

definition create_agent_folder ::
  "host \<Rightarrow> string \<Rightarrow> fsys \<Rightarrow> (error + string) \<times> fsys" where
  "create_agent_folder H agent_name fs =
     (let agent_folder = ''agents/'' @ agent_name in
      case (if \<not> path_exists H fs ''agents'' then os_makedirs H fs ''agents''
            else (Inr (), fs)) of
        (Inl e, fs1) \<Rightarrow> (Inl e, fs1)
      | (Inr _, fs1) \<Rightarrow>
          (case (if \<not> path_exists H fs1 agent_folder then os_makedirs H fs1 agent_folder
                 else (Inr (), fs1)) of
             (Inl e, fs2) \<Rightarrow> (Inl e, fs2)
           | (Inr _, fs2) \<Rightarrow> (Inr agent_folder, fs2)))"

definition config_document :: "(string, pyval) fmap \<Rightarrow> (string, pyval) fmap \<Rightarrow> pyval" where
  "config_document commands provider_settings =
     PDict (fmupd ''settings'' (PDict provider_settings)
             (fmupd ''commands'' (PDict commands) fmempty))"

definition create_agent_config_file ::
  "host \<Rightarrow> string \<Rightarrow> (string, pyval) fmap \<Rightarrow> (string, pyval) fmap \<Rightarrow> fsys
     \<Rightarrow> (error + string) \<times> fsys" where
  "create_agent_config_file H agent_name provider_settings commands fs =
     (let agent_dir = os_path_join ''agents'' [agent_name];
          agent_config_file = os_path_join agent_dir [''config.json''];
          settings = json_dumps H (config_document commands provider_settings) in
      case (if \<not> path_exists H fs agent_dir then os_makedirs H fs agent_dir
            else (Inr (), fs)) of
        (Inl e, fs1) \<Rightarrow> (Inl e, fs1)
      | (Inr _, fs1) \<Rightarrow>
          (case open_write H fs1 agent_config_file settings of
             Inl e \<Rightarrow> (Inl e, fs1)
           | Inr fs2 \<Rightarrow> (Inr agent_config_file, fs2)))"

definition command_dict :: "catalog \<Rightarrow> (string, pyval) fmap" where
  "command_dict commands_list =
     fold (\<lambda>(friendly_name, command_name, command_args) d. fmupd friendly_name (PBool False) d)
       commands_list fmempty"

definition add_agent ::
  "host \<Rightarrow> string \<Rightarrow> (string, pyval) fmap \<Rightarrow> fsys \<Rightarrow> (error + pyval) \<times> fsys" where
  "add_agent H agent_name provider_settings fs =
     (case create_agent_folder H agent_name fs of
        (Inl e, fs1) \<Rightarrow> (Inl e, fs1)
      | (Inr _, fs1) \<Rightarrow>
          (case load_commands H of
             Inl e \<Rightarrow> (Inl e, fs1)
           | Inr commands_list \<Rightarrow>
               (case create_agent_config_file H agent_name provider_settings
                       (command_dict commands_list) fs1 of
                  (Inl e, fs2) \<Rightarrow> (Inl e, fs2)
                | (Inr _, fs2) \<Rightarrow>
                    (Inr (PDict (fmupd ''agent_file'' (PStr (agent_name @ ''.yaml'')) fmempty)),
                     fs2))))"

section \<open>Resolving, updating and deleting a configuration\<close>

text \<open>
  One pass through the body of the \<^verbatim>\<open>while True\<close> loop of \<^verbatim>\<open>get_agent_config\<close> either
  leaves the loop, with the parsed document or with the exception that escapes, or comes
  back to the loop head after \<^verbatim>\<open>add_agent\<close> has returned. The file that the loop tests and
  reads is the absolute path of \<^verbatim>\<open>agents/<name>/config.json\<close>; the file that \<^verbatim>\<open>add_agent\<close>
  writes is \<^verbatim>\<open>os.path.join("agents", name, "config.json")\<close>.
\<close>

datatype 'r iteration = Break 'r | Continue fsys

definition get_agent_config_body ::
  "host \<Rightarrow> string \<Rightarrow> fsys \<Rightarrow> ((error + pyval) \<times> fsys) iteration" where
  "get_agent_config_body H agent_name fs =
     (let agent_file = abspath H (''agents/'' @ agent_name @ ''/config.json'') in
      if path_exists H fs agent_file then
        (case open_read H fs agent_file of
           Inl e \<Rightarrow> Break (Inl e, fs)
         | Inr text \<Rightarrow>
             (let file_content = strip text in
              if file_content \<noteq> [] then
                (case json_loads H file_content of
                   None \<Rightarrow> Break (Inl JSONDecodeError, fs)
                 | Some agent_config \<Rightarrow> Break (Inr agent_config, fs))
              else
                (case add_agent H agent_name fmempty fs of
                   (Inl e, fs1) \<Rightarrow> Break (Inl e, fs1)
                 | (Inr _, fs1) \<Rightarrow> Continue fs1)))
      else
        (case add_agent H agent_name fmempty fs of
           (Inl e, fs1) \<Rightarrow> Break (Inl e, fs1)
         | (Inr _, fs1) \<Rightarrow> Continue fs1))"

partial_function (option) get_agent_config ::
  "host \<Rightarrow> string \<Rightarrow> fsys \<Rightarrow> ((error + pyval) \<times> fsys) option" where
  "get_agent_config H agent_name fs =
     (case get_agent_config_body H agent_name fs of
        Break r \<Rightarrow> Some r
      | Continue fs1 \<Rightarrow> get_agent_config H agent_name fs1)"

definition config_file :: "string \<Rightarrow> string" where
  "config_file agent_name = os_path_join ''agents'' [agent_name, ''config.json'']"

definition update_agent_config ::
  "host \<Rightarrow> string \<Rightarrow> (string, pyval) fmap \<Rightarrow> fsys \<Rightarrow> (error + string) \<times> fsys" where
  "update_agent_config H agent_name new_config fs =
     (let agent_config_file = config_file agent_name in
      if path_exists H fs agent_config_file then
        (case open_read H fs agent_config_file of
           Inl e \<Rightarrow> (Inl e, fs)
         | Inr text \<Rightarrow>
             (case json_loads H text of
                None \<Rightarrow> (Inl JSONDecodeError, fs)
              | Some (PDict current_config) \<Rightarrow>
                  (let with_settings =
                         (if ''settings'' |\<notin>| fmdom current_config
                          then fmupd ''settings'' (PDict fmempty) current_config
                          else current_config) in
                   case fmlookup with_settings ''settings'' of
                     Some (PDict settings) \<Rightarrow>
                       (case open_write H fs agent_config_file
                               (json_dumps H (PDict (fmupd ''settings''
                                  (PDict (settings ++\<^sub>f new_config)) with_settings))) of
                          Inl e \<Rightarrow> (Inl e, fs)
                        | Inr fs1 \<Rightarrow>
                            (Inr (''Agent '' @ agent_name @ '' configuration updated.''), fs1))
                   | _ \<Rightarrow> (Inl AttributeError, fs))
              | Some _ \<Rightarrow> (Inl TypeError, fs)))
      else (Inr (''Agent '' @ agent_name @ '' configuration not found.''), fs))"

definition delete_agent ::
  "host \<Rightarrow> string \<Rightarrow> fsys \<Rightarrow> (error + pyval \<times> nat) \<times> fsys" where
  "delete_agent H agent_name fs =
     (let agent_file = abspath H (''agents/'' @ agent_name @ ''.yaml'');
          agent_folder = abspath H (''agents/'' @ agent_name @ ''/'') in
      case os_remove H fs agent_file of
        Inl FileNotFoundError \<Rightarrow>
          (Inr (PDict (fmupd ''message''
                  (PStr (''Agent file '' @ agent_file @ '' not found.'')) fmempty), 404), fs)
      | Inl e \<Rightarrow> (Inl e, fs)
      | Inr fs1 \<Rightarrow>
          (if path_exists H fs1 agent_folder then
             (case shutil_rmtree H fs1 agent_folder of
                (Inl e, fs2) \<Rightarrow> (Inl e, fs2)
              | (Inr _, fs2) \<Rightarrow>
                  (Inr (PDict (fmupd ''message''
                          (PStr (''Agent '' @ agent_name @ '' deleted.'')) fmempty), 200), fs2))
           else
             (Inr (PDict (fmupd ''message''
                     (PStr (''Agent '' @ agent_name @ '' deleted.'')) fmempty), 200), fs1)))"

section \<open>Chat history and memories\<close>

definition chat_history_file :: "string \<Rightarrow> string" where
  "chat_history_file agent_name = os_path_join ''agents'' [agent_name @ ''.yaml'']"

definition get_chat_history :: "host \<Rightarrow> string \<Rightarrow> fsys \<Rightarrow> (error + string) \<times> fsys" where
  "get_chat_history H agent_name fs =
     (if \<not> path_exists H fs (chat_history_file agent_name) then (Inr [], fs)
      else (open_read H fs (chat_history_file agent_name), fs))"

definition wipe_agent_memories :: "host \<Rightarrow> string \<Rightarrow> fsys \<Rightarrow> (error + unit) \<times> fsys" where
  "wipe_agent_memories H agent_name fs =
     (let agent_folder = abspath H (''agents/'' @ agent_name @ ''/'');
          memories_folder = os_path_join agent_folder [''memories''] in
      if path_exists H fs memories_folder then shutil_rmtree H fs memories_folder
      else (Inr (), fs))"



definition empty_memory :: pyval where
  "empty_memory = PDict (fmupd ''interactions'' (PList []) fmempty)"






section \<open>Notions used in the statements\<close>

text \<open>
  A name that is one path component: not empty, not a dot name, without separator and
  without null character, and at most 255 bytes long.
\<close>

definition path_component :: "string \<Rightarrow> bool" where
  "path_component c =
     (c \<noteq> [] \<and> c \<noteq> ''.'' \<and> c \<noteq> ''..'' \<and> CHR ''/'' \<notin> set c \<and> CHR 0x00 \<notin> set c
        \<and> utf8_len c \<le> 255)"

text \<open>The text of an absolute path.\<close>

definition render :: "path \<Rightarrow> string" where
  "render p = ''/'' @ join_slash p"

fun prefixes_of :: "path \<Rightarrow> path list" where
  "prefixes_of [] = [[]]"
| "prefixes_of (c # cs) = [] # map ((#) c) (prefixes_of cs)"

text \<open>
  The working directory is in place: its components are path components, it and the
  directories above it exist, and its path leaves room for the paths of an agent below
  the limit of 4096 bytes.
\<close>

definition workdir_ok :: "host \<Rightarrow> fsys \<Rightarrow> bool" where
  "workdir_ok H fs =
     (list_all path_component (cwd H)
        \<and> list_all (is_dir fs) (prefixes_of (cwd H))
        \<and> utf8_len (getcwd H) \<le> 3800)"

text \<open>The entries of an agent whose name is one path component.\<close>

definition agents_root :: "host \<Rightarrow> path" where
  "agents_root H = cwd H @ [''agents'']"

definition agent_folder :: "host \<Rightarrow> string \<Rightarrow> path" where
  "agent_folder H n = cwd H @ [''agents'', n]"

definition config_path :: "host \<Rightarrow> string \<Rightarrow> path" where
  "config_path H n = cwd H @ [''agents'', n, ''config.json'']"

definition memory_path :: "host \<Rightarrow> string \<Rightarrow> path" where
  "memory_path H n = cwd H @ [''agents'', n @ ''.yaml'']"

definition memories_path :: "host \<Rightarrow> string \<Rightarrow> path" where
  "memories_path H n = cwd H @ [''agents'', n, ''memories'']"

text \<open>
  The directories that \<^verbatim>\<open>create_agent_folder\<close> makes sure exist: the agents root and
  the folder of the agent.
\<close>

definition ensure_dirs :: "host \<Rightarrow> string \<Rightarrow> fsys \<Rightarrow> fsys" where
  "ensure_dirs H n fs =
     (\<lambda>q. if (q = agents_root H \<or> q = agent_folder H n) \<and> fs q = None then Some Dir
          else fs q)"

text \<open>Where a path below the folder of an agent resolves to.\<close>

definition under_folder :: "host \<Rightarrow> fsys \<Rightarrow> string \<Rightarrow> string \<Rightarrow> error + path" where
  "under_folder H fs n c =
     (if is_dir fs (agents_root H) then
        if is_dir fs (agent_folder H n) then Inr (agent_folder H n @ [c])
        else Inl (not_a_dir fs (agent_folder H n))
      else Inl (not_a_dir fs (agents_root H)))"

text \<open>The branch of the loop body that calls \<^verbatim>\<open>add_agent\<close>.\<close>

definition regenerate :: "host \<Rightarrow> string \<Rightarrow> fsys \<Rightarrow> ((error + pyval) \<times> fsys) iteration" where
  "regenerate H n fs =
     (case add_agent H n fmempty fs of
        (Inl e, fs1) \<Rightarrow> Break (Inl e, fs1)
      | (Inr _, fs1) \<Rightarrow> Continue fs1)"

definition settings_of :: "pyval \<Rightarrow> pyval option" where
  "settings_of d = (case d of PDict m \<Rightarrow> fmlookup m ''settings'' | _ \<Rightarrow> None)"

text \<open>
  The default provider settings and the default document as the specification gives
  them in its scenario for a new agent and an empty catalog.
\<close>

definition spec_default_settings :: pyval where
  "spec_default_settings =
     PDict (fmupd ''MAX_TOKENS'' (PInt 2000)
       (fmupd ''AI_TEMPERATURE'' (PFloat 0.4)
         (fmupd ''AI_MODEL'' (PStr ''openassistant'')
           (fmupd ''provider'' (PStr ''huggingchat'') fmempty))))"

definition spec_default_document :: pyval where
  "spec_default_document =
     PDict (fmupd ''settings'' spec_default_settings
             (fmupd ''commands'' (PDict fmempty) fmempty))"

text \<open>
  The specification's \<^verbatim>\<open>{...default, ...s1, ...s2}\<close>, key by key: the value of the last
  mapping that has the key.
\<close>

definition later_keys_win ::
  "(string, pyval) fmap \<Rightarrow> (string, pyval) fmap \<Rightarrow> (string, pyval) fmap \<Rightarrow> string
     \<Rightarrow> pyval option" where
  "later_keys_win dflt s1 s2 k =
     (case fmlookup s2 k of
        Some v \<Rightarrow> Some v
      | None \<Rightarrow> (case fmlookup s1 k of Some v \<Rightarrow> Some v | None \<Rightarrow> fmlookup dflt k))"

text \<open>
  What the specification says the log holds for a sequence of calls: for each call, in
  call order, a record with exactly the two keys \<^verbatim>\<open>role\<close> and \<^verbatim>\<open>message\<close>.
\<close>

definition spec_record :: "string \<times> string \<Rightarrow> pyval" where
  "spec_record call =
     PDict (fmap_of_list [(''role'', PStr (fst call)), (''message'', PStr (snd call))])"


definition put_file :: "fsys \<Rightarrow> path \<Rightarrow> string \<Rightarrow> fsys" where
  "put_file fs p s = fs(p \<mapsto> File s)"

section \<open>A concrete host and file system\<close>

text \<open>
  For evaluating the model on concrete inputs: a plugin directory with one module that
  declares two commands and one module that declares none, and the \<^verbatim>\<open>json\<close> and \<^verbatim>\<open>yaml\<close>
  libraries on the documents that the scenarios below write and read. On these documents
  and texts the tables agree with the libraries.
\<close>

definition web_commands :: "(string \<times> callable) list" where
  "web_commands =
     [(''Search the web'',
         \<lparr>fn_name = ''search'', fn_params = [(''query'', None), (''limit'', Some (PInt 5))]\<rparr>),
      (''Fetch page'', \<lparr>fn_name = ''fetch'', fn_params = [(''url'', None)]\<rparr>)]"

definition demo_import :: "string \<Rightarrow> error + pymodule" where
  "demo_import name =
     (if name = ''commands.Web''
      then Inr (\<lambda>a. if a = ''web'' then Some (Inr \<lparr>commands_attr = Some web_commands\<rparr>)
                     else None)
      else if name = ''commands.util''
      then Inr (\<lambda>a. if a = ''util'' then Some (Inr \<lparr>commands_attr = None\<rparr>) else None)
      else Inl ImportError)"

definition has_setting :: "pyval \<Rightarrow> string \<Rightarrow> bool" where
  "has_setting d k =
     (case d of
        PDict m \<Rightarrow>
          (case fmlookup m ''settings'' of Some (PDict s) \<Rightarrow> k |\<in>| fmdom s | _ \<Rightarrow> False)
      | _ \<Rightarrow> False)"

definition has_command :: "pyval \<Rightarrow> string \<Rightarrow> bool" where
  "has_command d k =
     (case d of
        PDict m \<Rightarrow>
          (case fmlookup m ''commands'' of Some (PDict s) \<Rightarrow> k |\<in>| fmdom s | _ \<Rightarrow> False)
      | _ \<Rightarrow> False)"

definition text_fresh :: string where
  "text_fresh = ''{\"commands\": {}, \"settings\": {}}''"

definition text_web :: string where
  "text_web =
     ''{\"commands\": {\"Search the web\": false, \"Fetch page\": false}, \"settings\": {}}''"

definition text_model :: string where
  "text_model = ''{\"commands\": {}, \"settings\": {\"AI_MODEL\": \"gpt4\"}}''"

definition text_tokens :: string where
  "text_tokens =
     ''{\"commands\": {}, \"settings\": {\"AI_MODEL\": \"gpt4\", \"MAX_TOKENS\": 100}}''"

definition doc_fresh :: pyval where
  "doc_fresh = config_document fmempty fmempty"

definition doc_web :: pyval where
  "doc_web = config_document (command_dict (catalog_entries web_commands)) fmempty"

definition demo_json_dumps :: "pyval \<Rightarrow> string" where
  "demo_json_dumps d =
     (if has_setting d ''MAX_TOKENS'' then text_tokens
      else if has_setting d ''AI_MODEL'' then text_model
      else if has_command d ''Search the web'' then text_web
      else text_fresh)"

definition doc_model :: pyval where
  "doc_model = config_document fmempty (fmupd ''AI_MODEL'' (PStr ''gpt4'') fmempty)"

definition doc_tokens :: pyval where
  "doc_tokens =
     config_document fmempty
       (fmupd ''MAX_TOKENS'' (PInt 100) (fmupd ''AI_MODEL'' (PStr ''gpt4'') fmempty))"

definition demo_json_loads :: "string \<Rightarrow> pyval option" where
  "demo_json_loads t =
     (if t = ''[]'' then Some (PList [])
      else if t = ''{\"settings\": 1}'' then Some (PDict (fmupd ''settings'' (PInt 1) fmempty))
      else if t = text_tokens then Some doc_tokens
      else if t = text_model then Some doc_model
      else if t = text_web then Some doc_web
      else if t = text_fresh then Some doc_fresh
      else None)"

definition text_log0 :: string where
  "text_log0 = ''{interactions: []}''"

definition text_log1 :: string where
  "text_log1 = ''{interactions: [{message: hi, role: USER}]}''"

definition text_log2 :: string where
  "text_log2 = ''{interactions: [{message: hi, role: USER}, {message: hello, role: Bot1}]}''"

definition log1 :: pyval where
  "log1 = PDict (fmupd ''interactions'' (PList [spec_record (''USER'', ''hi'')]) fmempty)"

definition log2 :: pyval where
  "log2 = PDict (fmupd ''interactions''
            (PList [spec_record (''USER'', ''hi''), spec_record (''Bot1'', ''hello'')]) fmempty)"

definition demo_yaml_dump :: "pyval \<Rightarrow> string" where
  "demo_yaml_dump d =
     (case d of
        PDict m \<Rightarrow>
          (case fmlookup m ''interactions'' of
             Some (PList xs) \<Rightarrow>
               (if length xs = 2 then text_log2
                else if length xs = 1 then text_log1 else text_log0)
           | _ \<Rightarrow> ''{}'')
      | _ \<Rightarrow> ''null'')"

definition demo_yaml_load :: "string \<Rightarrow> pyval option" where
  "demo_yaml_load t =
     (if t = text_log2 then Some log2
      else if t = text_log1 then Some log1
      else if t = text_log0 then Some empty_memory
      else None)"

definition demo_host :: host where
  "demo_host =
     \<lparr>cwd = [''srv'', ''app''],
      json_dumps = demo_json_dumps, json_loads = demo_json_loads,
      yaml_safe_dump = demo_yaml_dump, yaml_safe_load = demo_yaml_load,
      glob_commands = [''commands/Web.py'', ''commands/util.py''],
      import_module = demo_import\<rparr>"

text \<open>The same host with an empty plugin directory.\<close>

definition bare_host :: host where
  "bare_host = demo_host\<lparr>glob_commands := []\<rparr>"

text \<open>A host whose plugin directory holds a module that cannot be imported.\<close>

definition broken_host :: host where
  "broken_host = demo_host\<lparr>glob_commands := [''commands/Gone.py'']\<rparr>"

text \<open>
  File systems: one with nothing but the working directory \<^verbatim>\<open>/srv/app\<close>; one in which
  \<^verbatim>\<open>agents\<close> is a regular file; and one with a complete agent \<^verbatim>\<open>Bot1\<close>, an agent whose
  configuration file is blank, one whose configuration file is not JSON, one whose
  configuration file holds a JSON list, one whose settings entry is a number, a folder
  \<^verbatim>\<open>Orphan\<close> without a memory document, and a blank configuration file in the nested
  folder \<^verbatim>\<open>agents/tmp/x\<close>. The memories folder of \<^verbatim>\<open>Bot1\<close> holds the memory document
  of the agent \<^verbatim>\<open>Bot1/memories/notes\<close>. Nothing is stored for \<^verbatim>\<open>Ghost\<close>.
\<close>

definition base_fs :: fsys where
  "base_fs = [[''srv''] \<mapsto> Dir, [''srv'', ''app''] \<mapsto> Dir]"

definition file_root_fs :: fsys where
  "file_root_fs = base_fs([''srv'', ''app'', ''agents''] \<mapsto> File [])"

definition demo_fs :: fsys where
  "demo_fs =
     base_fs
      ([''srv'', ''app'', ''agents''] \<mapsto> Dir,
       [''srv'', ''app'', ''agents'', ''Bot1''] \<mapsto> Dir,
       [''srv'', ''app'', ''agents'', ''Bot1'', ''config.json''] \<mapsto> File text_fresh,
       [''srv'', ''app'', ''agents'', ''Bot1'', ''memories''] \<mapsto> Dir,
       [''srv'', ''app'', ''agents'', ''Bot1'', ''memories'', ''chroma.sqlite3''] \<mapsto>
         File ''vectors'',
       [''srv'', ''app'', ''agents'', ''Bot1'', ''memories'', ''notes.yaml''] \<mapsto>
         File text_log1,
       [''srv'', ''app'', ''agents'', ''Bot1.yaml''] \<mapsto> File text_log0,
       [''srv'', ''app'', ''agents'', ''Blank''] \<mapsto> Dir,
       [''srv'', ''app'', ''agents'', ''Blank'', ''config.json''] \<mapsto> File ''  '',
       [''srv'', ''app'', ''agents'', ''Broken''] \<mapsto> Dir,
       [''srv'', ''app'', ''agents'', ''Broken'', ''config.json''] \<mapsto> File ''{oops'',
       [''srv'', ''app'', ''agents'', ''Listed''] \<mapsto> Dir,
       [''srv'', ''app'', ''agents'', ''Listed'', ''config.json''] \<mapsto> File ''[]'',
       [''srv'', ''app'', ''agents'', ''Odd''] \<mapsto> Dir,
       [''srv'', ''app'', ''agents'', ''Odd'', ''config.json''] \<mapsto>
         File ''{\"settings\": 1}'',
       [''srv'', ''app'', ''agents'', ''Orphan''] \<mapsto> Dir,
       [''srv'', ''app'', ''agents'', ''tmp''] \<mapsto> Dir,
       [''srv'', ''app'', ''agents'', ''tmp'', ''x''] \<mapsto> Dir,
       [''srv'', ''app'', ''agents'', ''tmp'', ''x'', ''config.json''] \<mapsto> File [])"

text \<open>
  The states in which the loop of \<^verbatim>\<open>get_agent_config\<close> stays for the agent name
  \<^verbatim>\<open>/tmp/x\<close>, from the empty working directory and from the file system above.
\<close>

definition base_loop_fs :: fsys where
  "base_loop_fs =
     base_fs
      ([''srv'', ''app'', ''agents''] \<mapsto> Dir,
       [''srv'', ''app'', ''agents'', ''tmp''] \<mapsto> Dir,
       [''srv'', ''app'', ''agents'', ''tmp'', ''x''] \<mapsto> Dir,
       [''tmp''] \<mapsto> Dir,
       [''tmp'', ''x''] \<mapsto> Dir,
       [''tmp'', ''x'', ''config.json''] \<mapsto> File text_fresh)"

definition demo_loop_fs :: fsys where
  "demo_loop_fs =
     demo_fs
      ([''tmp''] \<mapsto> Dir,
       [''tmp'', ''x''] \<mapsto> Dir,
       [''tmp'', ''x'', ''config.json''] \<mapsto> File text_web)"

text \<open>The file system above once the memories of \<^verbatim>\<open>Bot1\<close> have been wiped.\<close>

definition demo_wiped :: fsys where
  "demo_wiped =
     (\<lambda>q. if is_under [''srv'', ''app'', ''agents'', ''Bot1'', ''memories''] q then None
          else demo_fs q)"

section \<open>Path texts\<close>

subsection \<open>Strings\<close>

lemma utf8_len_append [simp]: "utf8_len (a @ b) = utf8_len a + utf8_len b"
  by (simp add: utf8_len_def)

lemma utf8_len_Nil [simp]: "utf8_len [] = 0"
  by (simp add: utf8_len_def)

lemma utf8_len_Cons: "utf8_len (c # s) = (if 128 \<le> (of_char c :: nat) then 2 else 1) + utf8_len s"
  by (simp add: utf8_len_def)

lemma split_on_nonempty [simp]: "split_on d s \<noteq> []"
  by (induction s) (auto split: list.splits)

lemma split_on_prefix:
  "d \<notin> set c \<Longrightarrow> split_on d (c @ z) = (c @ hd (split_on d z)) # tl (split_on d z)"
  by (induction c) (auto split: list.splits)

lemma split_on_nosep: "d \<notin> set c \<Longrightarrow> split_on d c = [c]"
  using split_on_prefix [of d c "[]"] by simp

lemma split_on_sep: "d \<notin> set c \<Longrightarrow> split_on d (c @ d # r) = c # split_on d r"
  using split_on_prefix [of d c "d # r"] by simp

lemma split_join_slash:
  "list_all (\<lambda>c. CHR ''/'' \<notin> set c) cs \<Longrightarrow> cs \<noteq> []
     \<Longrightarrow> split_on (CHR ''/'') (join_slash cs) = cs"
proof (induction cs rule: join_slash.induct)
  case 1
  then show ?case by simp
next
  case (2 c)
  then show ?case by (simp add: split_on_nosep)
next
  case (3 c v va)
  then show ?case by (simp add: split_on_sep)
qed

lemma join_slash_nonempty: "cs \<noteq> [] \<Longrightarrow> hd cs \<noteq> [] \<Longrightarrow> join_slash cs \<noteq> []"
  by (induction cs rule: join_slash.induct) auto

lemma hd_join_slash: "cs \<noteq> [] \<Longrightarrow> hd cs \<noteq> [] \<Longrightarrow> hd (join_slash cs) = hd (hd cs)"
  by (induction cs rule: join_slash.induct) auto

lemma set_join_slash: "set (join_slash cs) \<subseteq> insert (CHR ''/'') (\<Union> (set ` set cs))"
  by (induction cs rule: join_slash.induct) auto

lemma join_slash_Cons: "ys \<noteq> [] \<Longrightarrow> join_slash (c # ys) = c @ ''/'' @ join_slash ys"
  by (cases ys) auto

lemma join_slash_append:
  "xs \<noteq> [] \<Longrightarrow> ys \<noteq> [] \<Longrightarrow> join_slash (xs @ ys) = join_slash xs @ ''/'' @ join_slash ys"
  by (induction xs rule: join_slash.induct) (auto simp: join_slash_Cons)

lemma last_join_slash: "cs \<noteq> [] \<Longrightarrow> last cs \<noteq> [] \<Longrightarrow> last (join_slash cs) = last (last cs)"
  by (induction cs rule: join_slash.induct) (auto simp: join_slash_Cons)

lemma path_componentD:
  assumes "path_component c"
  shows "c \<noteq> []" "c \<noteq> ''.''" "c \<noteq> ''..''" "CHR ''/'' \<notin> set c" "CHR 0x00 \<notin> set c"
    "utf8_len c \<le> 255" "hd c \<noteq> CHR ''/''" "last c \<noteq> CHR ''/''"
  using assms by (auto simp: path_component_def dest: hd_in_set last_in_set)

lemma norm_comps_valid:
  "list_all path_component cs \<Longrightarrow> norm_comps i (cs @ rest) acc = norm_comps i rest (acc @ cs)"
  by (induction cs arbitrary: acc) (auto simp: path_component_def)

lemma walk_component:
  "path_component c \<Longrightarrow>
     walk fs cur (c # cs) =
       (if is_dir fs cur then walk fs (cur @ [c]) cs else Inl (not_a_dir fs cur))"
  by (auto simp: path_component_def)

lemma walk_through:
  "list_all path_component cs \<Longrightarrow> list_all (\<lambda>p. is_dir fs (cur @ p)) (prefixes_of cs)
     \<Longrightarrow> walk fs cur (cs @ rest) = walk fs (cur @ cs) rest"
proof (induction cs arbitrary: cur)
  case Nil
  then show ?case by simp
next
  case (Cons c cs)
  have d: "is_dir fs cur"
    using Cons.prems(2) by simp
  have "list_all (\<lambda>p. is_dir fs ((cur @ [c]) @ p)) (prefixes_of cs)"
    using Cons.prems(2) by (simp add: list_all_iff)
  with Cons have "walk fs (cur @ [c]) (cs @ rest) = walk fs ((cur @ [c]) @ cs) rest"
    by simp
  with d Cons.prems(1) show ?case by (simp add: walk_component del: walk.simps)
qed

lemma concat_slash:
  "cs \<noteq> [] \<Longrightarrow> concat (map ((@) ''/'') cs) = ''/'' @ join_slash cs"
  by (induction cs rule: join_slash.induct) (auto simp: join_slash_Cons)

lemma getcwd_render: "cwd H \<noteq> [] \<Longrightarrow> getcwd H = render (cwd H)"
  using concat_slash [of "cwd H"] by (simp add: getcwd_def render_def)

lemma split_join_sep:
  "list_all (\<lambda>c. CHR ''/'' \<notin> set c) cs \<Longrightarrow> cs \<noteq> []
     \<Longrightarrow> split_on (CHR ''/'') (join_slash cs @ CHR ''/'' # s) = cs @ split_on (CHR ''/'') s"
proof (induction cs rule: join_slash.induct)
  case 1
  then show ?case by simp
next
  case (2 c)
  then show ?case by (simp add: split_on_sep)
next
  case (3 c v va)
  then show ?case by (simp add: split_on_sep)
qed

lemma null_free_join:
  "list_all path_component cs \<Longrightarrow> CHR 0x00 \<notin> set (join_slash cs)"
  using set_join_slash [of cs] by (auto simp: list_all_iff path_component_def)

lemma resolve_rel:
  assumes "list_all path_component cs" and "cs \<noteq> []" and "utf8_len (join_slash cs) < 4096"
  shows "resolve H fs (join_slash cs) = walk fs (cwd H) cs"
proof -
  have hdc: "path_component (hd cs)" using assms(1,2) by (cases cs) auto
  have ne: "join_slash cs \<noteq> []"
    using assms(2) hdc by (simp add: join_slash_nonempty path_componentD)
  have h: "hd (join_slash cs) \<noteq> CHR ''/''"
    using assms(2) hdc by (simp add: hd_join_slash path_componentD)
  have r: "refused (join_slash cs) = None"
    using assms ne by (simp add: refused_def null_free_join)
  have sp: "split_on (CHR ''/'') (join_slash cs) = cs"
    using assms(1,2) by (intro split_join_slash) (auto simp: list_all_iff path_component_def)
  show ?thesis
    using r h sp by (simp add: resolve_def start_dir_def isabs_def)
qed

lemma resolve_abs:
  assumes "list_all path_component p" and "utf8_len (render p) < 4096"
  shows "resolve H fs (render p) = walk fs [] p"
proof -
  have r: "refused (render p) = None"
    using assms null_free_join [OF assms(1)] by (simp add: refused_def render_def)
  show ?thesis
  proof (cases "p = []")
    case True
    then show ?thesis
      using r by (simp add: resolve_def start_dir_def isabs_def render_def is_dir_def node_at_def)
  next
    case False
    have sp: "split_on (CHR ''/'') (join_slash p) = p"
      using assms(1) False by (intro split_join_slash) (auto simp: list_all_iff path_component_def)
    show ?thesis
      using r sp
      by (simp add: resolve_def start_dir_def isabs_def render_def is_dir_def node_at_def)
  qed
qed

lemma abspath_rel:
  assumes "list_all path_component (cwd H)" and "s \<noteq> []" and "hd s \<noteq> CHR ''/''"
  shows "abspath H s = render (norm_comps True (split_on (CHR ''/'') s) (cwd H))"
proof (cases "cwd H = []")
  case True
  obtain c r where s: "s = c # r" and c: "c \<noteq> CHR ''/''"
    using assms(2,3) by (cases s) auto
  show ?thesis
    using True s c
    by (simp add: abspath_def isabs_def os_path_join_def join2_def getcwd_def normpath_def
        render_def)
next
  case False
  let ?W = "cwd H"
  obtain w ws where W: "?W = w # ws" using False by (cases ?W) auto
  have pw: "path_component w" using assms(1) W by simp
  obtain a r where w: "w = a # r" and a: "a \<noteq> CHR ''/''"
    using path_componentD(1,7) [OF pw] by (cases w) auto
  have g: "getcwd H = ''/'' @ join_slash ?W"
    using getcwd_render [OF False] by (simp add: render_def)
  have lastW: "path_component (last ?W)"
    using assms(1) False by (simp add: list_all_iff)
  have l: "last (join_slash ?W) \<noteq> CHR ''/''"
    using False lastW by (simp add: last_join_slash path_componentD)
  have jn: "join_slash ?W \<noteq> []"
    using W w by (cases ws) auto
  have j: "os_path_join (getcwd H) [s] = ''/'' @ join_slash ?W @ ''/'' @ s"
    using g l jn assms(2,3) by (simp add: os_path_join_def join2_def)
  have h2: "\<exists>t. join_slash ?W = a # t"
    using W w by (cases ws) auto
  have nosep: "list_all (\<lambda>c. CHR ''/'' \<notin> set c) ?W"
    using assms(1) by (auto simp: list_all_iff path_component_def)
  have spW: "split_on (CHR ''/'') (join_slash ?W @ CHR ''/'' # s) = ?W @ split_on (CHR ''/'') s"
    using nosep False by (rule split_join_sep)
  have nc: "norm_comps True (?W @ split_on (CHR ''/'') s) [] = norm_comps True (split_on (CHR ''/'') s) ?W"
    using norm_comps_valid [OF assms(1), of True "split_on (CHR ''/'') s" "[]"] by simp
  from h2 obtain t where t: "join_slash ?W = a # t" by blast
  have "normpath (''/'' @ join_slash ?W @ ''/'' @ s)
          = ''/'' @ join_slash (norm_comps True (?W @ split_on (CHR ''/'') s) [])"
    using spW a by (simp add: normpath_def t)
  then show ?thesis
    using j nc by (simp add: abspath_def isabs_def assms(2,3) render_def)
qed

section \<open>Where the paths of an agent resolve to\<close>

lemma self_prefix: "cs \<in> set (prefixes_of cs)"
  by (induction cs) auto

lemma workdir_okD:
  assumes "workdir_ok H fs"
  shows "list_all path_component (cwd H)" "is_dir fs (cwd H)"
    "list_all (\<lambda>p. is_dir fs ([] @ p)) (prefixes_of (cwd H))" "utf8_len (getcwd H) \<le> 3800"
  using assms self_prefix [of "cwd H"] by (auto simp: workdir_ok_def list_all_iff)

lemma literal_components:
  "path_component ''agents''" "path_component ''config.json''" "path_component ''memories''"
  by (simp_all add: path_component_def utf8_len_def)

lemma render_len:
  "rel \<noteq> [] \<Longrightarrow> utf8_len (render (cwd H @ rel)) \<le> utf8_len (getcwd H) + 1 + utf8_len (join_slash rel)"
proof (cases "cwd H = []")
  case True
  assume "rel \<noteq> []"
  with True show ?thesis by (simp add: render_def getcwd_def utf8_len_Cons)
next
  case False
  assume "rel \<noteq> []"
  with False show ?thesis
    using getcwd_render [OF False] by (simp add: render_def join_slash_append utf8_len_Cons)
qed

lemma locate:
  assumes "workdir_ok H fs" and "list_all path_component rel" and "rel \<noteq> []"
    and "utf8_len (join_slash rel) \<le> 290"
  shows "resolve H fs (join_slash rel) = walk fs (cwd H) rel"
    and "resolve H fs (render (cwd H @ rel)) = walk fs (cwd H) rel"
proof -
  show "resolve H fs (join_slash rel) = walk fs (cwd H) rel"
    using assms by (intro resolve_rel) auto
  have v: "list_all path_component (cwd H @ rel)"
    using assms(2) workdir_okD(1) [OF assms(1)] by simp
  have b: "utf8_len (render (cwd H @ rel)) < 4096"
    using render_len [OF assms(3), of H] workdir_okD(4) [OF assms(1)] assms(4) by simp
  have "resolve H fs (render (cwd H @ rel)) = walk fs [] (cwd H @ rel)"
    using v b by (rule resolve_abs)
  also have "\<dots> = walk fs ([] @ cwd H) rel"
    using workdir_okD(1,3) [OF assms(1)] by (rule walk_through)
  finally show "resolve H fs (render (cwd H @ rel)) = walk fs (cwd H) rel" by simp
qed

lemma node_at_nonempty [simp]: "node_at fs (p @ [c]) = fs (p @ [c])"
  "node_at fs (p @ c # cs) = fs (p @ c # cs)"
  by (simp_all add: node_at_def)

lemma yaml_len: "path_component (n @ ''.yaml'') \<Longrightarrow> utf8_len n \<le> 250"
  by (simp add: path_component_def utf8_len_def)

lemma resolve_agents:
  assumes "workdir_ok H fs"
  shows "resolve H fs ''agents'' = Inr (agents_root H)"
    and "resolve H fs (render (agents_root H)) = Inr (agents_root H)"
  using locate [OF assms, of "[''agents'']"] workdir_okD(2) [OF assms] literal_components
  by (simp_all add: walk_component agents_root_def utf8_len_def del: walk.simps(2))

lemma walk2:
  assumes "is_dir fs W" and "path_component a" and "path_component b"
  shows "walk fs W [a, b] = (if is_dir fs (W @ [a]) then Inr (W @ [a, b]) else Inl (not_a_dir fs (W @ [a])))"
  using assms by (simp add: walk_component del: walk.simps(2))

lemma walk3:
  assumes "is_dir fs W" and "path_component a" and "path_component b" and "path_component c"
  shows "walk fs W [a, b, c] =
     (if is_dir fs (W @ [a]) then
        if is_dir fs (W @ [a, b]) then Inr (W @ [a, b, c]) else Inl (not_a_dir fs (W @ [a, b]))
      else Inl (not_a_dir fs (W @ [a])))"
  using assms by (simp add: walk_component del: walk.simps(2))

lemma resolve_folder:
  assumes "workdir_ok H fs" and "path_component n"
  shows "resolve H fs (''agents/'' @ n) =
           (if is_dir fs (agents_root H) then Inr (agent_folder H n)
            else Inl (not_a_dir fs (agents_root H)))"
    and "resolve H fs (render (agent_folder H n)) =
           (if is_dir fs (agents_root H) then Inr (agent_folder H n)
            else Inl (not_a_dir fs (agents_root H)))"
proof -
  have v: "list_all path_component [''agents'', n]"
    using assms(2) literal_components by simp
  have b: "utf8_len (join_slash [''agents'', n]) \<le> 290"
    using path_componentD(6) [OF assms(2)] by (simp add: utf8_len_Cons)
  note l = locate [OF assms(1) v _ b]
  note w = walk2 [OF workdir_okD(2) [OF assms(1)] literal_components(1) assms(2)]
  show "resolve H fs (''agents/'' @ n) =
           (if is_dir fs (agents_root H) then Inr (agent_folder H n)
            else Inl (not_a_dir fs (agents_root H)))"
    using l(1) w by (simp add: agents_root_def agent_folder_def)
  show "resolve H fs (render (agent_folder H n)) =
           (if is_dir fs (agents_root H) then Inr (agent_folder H n)
            else Inl (not_a_dir fs (agents_root H)))"
    using l(2) w by (simp add: agents_root_def agent_folder_def)
qed

lemma resolve_in_folder:
  assumes "workdir_ok H fs" and "path_component n" and "path_component c" and "utf8_len c \<le> 20"
  shows "resolve H fs (''agents/'' @ n @ ''/'' @ c) = under_folder H fs n c"
    and "resolve H fs (render (agent_folder H n @ [c])) = under_folder H fs n c"
proof -
  have v: "list_all path_component [''agents'', n, c]"
    using assms(2,3) literal_components by simp
  have b: "utf8_len (join_slash [''agents'', n, c]) \<le> 290"
    using path_componentD(6) [OF assms(2)] assms(4) by (simp add: utf8_len_Cons)
  note l = locate [OF assms(1) v _ b]
  note w = walk3 [OF workdir_okD(2) [OF assms(1)] literal_components(1) assms(2,3)]
  show "resolve H fs (''agents/'' @ n @ ''/'' @ c) = under_folder H fs n c"
    using l(1) w by (simp add: agents_root_def agent_folder_def under_folder_def)
  show "resolve H fs (render (agent_folder H n @ [c])) = under_folder H fs n c"
    using l(2) w by (simp add: agents_root_def agent_folder_def under_folder_def)
qed

lemma resolve_memory:
  assumes "workdir_ok H fs" and "path_component (n @ ''.yaml'')"
  shows "resolve H fs (''agents/'' @ n @ ''.yaml'') =
           (if is_dir fs (agents_root H) then Inr (memory_path H n)
            else Inl (not_a_dir fs (agents_root H)))"
    and "resolve H fs (render (memory_path H n)) =
           (if is_dir fs (agents_root H) then Inr (memory_path H n)
            else Inl (not_a_dir fs (agents_root H)))"
proof -
  have v: "list_all path_component [''agents'', n @ ''.yaml'']"
    using assms(2) literal_components by simp
  have b: "utf8_len (join_slash [''agents'', n @ ''.yaml'']) \<le> 290"
    using path_componentD(6) [OF assms(2)] by (simp add: utf8_len_Cons)
  note l = locate [OF assms(1) v _ b]
  note w = walk2 [OF workdir_okD(2) [OF assms(1)] literal_components(1) assms(2)]
  show "resolve H fs (''agents/'' @ n @ ''.yaml'') =
           (if is_dir fs (agents_root H) then Inr (memory_path H n)
            else Inl (not_a_dir fs (agents_root H)))"
    using l(1) w by (simp add: agents_root_def memory_path_def)
  show "resolve H fs (render (memory_path H n)) =
           (if is_dir fs (agents_root H) then Inr (memory_path H n)
            else Inl (not_a_dir fs (agents_root H)))"
    using l(2) w by (simp add: agents_root_def memory_path_def)
qed

subsection \<open>The path strings of a name that is one component\<close>

lemma join_names:
  assumes "path_component n"
  shows "os_path_join ''agents'' [n] = ''agents/'' @ n"
    and "os_path_join (os_path_join ''agents'' [n]) [''config.json''] = ''agents/'' @ n @ ''/config.json''"
    and "config_file n = ''agents/'' @ n @ ''/config.json''"
    and "os_path_join (''agents/'' @ n) [''config.json''] = ''agents/'' @ n @ ''/config.json''"
  using path_componentD(1,7,8) [OF assms]
  by (simp_all add: os_path_join_def join2_def config_file_def)

lemma join_yaml:
  assumes "path_component (n @ ''.yaml'')"
  shows "chat_history_file n = ''agents/'' @ n @ ''.yaml''"
  using path_componentD(7) [OF assms]
  by (simp add: os_path_join_def join2_def chat_history_file_def)

lemma abspath_names:
  assumes "list_all path_component (cwd H)" and "path_component n"
  shows "abspath H (''agents/'' @ n @ ''/config.json'') = render (config_path H n)"
    and "abspath H (''agents/'' @ n @ ''/'') = render (agent_folder H n)"
proof -
  note d = path_componentD [OF assms(2)]
  have s1: "split_on (CHR ''/'') (''agents/'' @ n @ ''/config.json'') = [''agents'', n, ''config.json'']"
    using split_join_slash [of "[''agents'', n, ''config.json'']"] d(4) by simp
  have s2: "split_on (CHR ''/'') (''agents/'' @ n @ ''/'') = [''agents'', n, []]"
    using split_join_slash [of "[''agents'', n, []]"] d(4) by simp
  show "abspath H (''agents/'' @ n @ ''/config.json'') = render (config_path H n)"
    using abspath_rel [OF assms(1), of "''agents/'' @ n @ ''/config.json''"] s1 d(1,2,3)
    by (simp add: config_path_def)
  show "abspath H (''agents/'' @ n @ ''/'') = render (agent_folder H n)"
    using abspath_rel [OF assms(1), of "''agents/'' @ n @ ''/''"] s2 d(1,2,3)
    by (simp add: agent_folder_def)
qed

lemma abspath_yaml:
  assumes "list_all path_component (cwd H)" and "path_component (n @ ''.yaml'')"
  shows "abspath H (''agents/'' @ n @ ''.yaml'') = render (memory_path H n)"
proof -
  note d = path_componentD [OF assms(2)]
  have s1: "split_on (CHR ''/'') (''agents/'' @ n @ ''.yaml'') = [''agents'', n @ ''.yaml'']"
    using split_join_slash [of "[''agents'', n @ ''.yaml'']"] d(4) by simp
  show ?thesis
    using abspath_rel [OF assms(1), of "''agents/'' @ n @ ''.yaml''"] s1 d(1,2,3)
    by (simp add: memory_path_def)
qed

lemma join_slash_nonempty_last: "cs \<noteq> [] \<Longrightarrow> last cs \<noteq> [] \<Longrightarrow> join_slash cs \<noteq> []"
  by (induction cs rule: join_slash.induct) (auto simp: join_slash_Cons)

lemma join_memories:
  assumes "path_component n"
  shows "os_path_join (render (agent_folder H n)) [''memories''] = render (memories_path H n)"
proof -
  have "last (join_slash (cwd H @ [''agents'', n])) = last n"
    using last_join_slash [of "cwd H @ [''agents'', n]"] path_componentD(1) [OF assms] by simp
  moreover have "join_slash (cwd H @ [''agents'', n, ''memories''])
      = join_slash (cwd H @ [''agents'', n]) @ ''/'' @ ''memories''"
    using join_slash_append [of "cwd H @ [''agents'', n]" "[''memories'']"] by simp
  moreover have "join_slash (cwd H @ [''agents'', n]) \<noteq> []"
    using join_slash_nonempty_last [of "cwd H @ [''agents'', n]"] path_componentD(1) [OF assms]
    by simp
  ultimately show ?thesis
    using path_componentD(8) [OF assms]
    by (simp add: os_path_join_def join2_def render_def agent_folder_def memories_path_def)
qed

lemma prefix_length: "q \<in> set (prefixes_of cs) \<Longrightarrow> length q \<le> length cs"
  by (induction cs arbitrary: q) auto

lemma workdir_ok_cong:
  assumes "workdir_ok H fs" and "\<And>q. length q \<le> length (cwd H) \<Longrightarrow> fs1 q = fs q"
  shows "workdir_ok H fs1"
proof -
  have "is_dir fs1 q = is_dir fs q" if "q \<in> set (prefixes_of (cwd H))" for q
    using assms(2) [OF prefix_length [OF that]] by (simp add: is_dir_def node_at_def)
  then show ?thesis
    using assms(1) by (simp add: workdir_ok_def list_all_iff)
qed

lemma workdir_ok_upd:
  assumes "workdir_ok H fs" and "length (cwd H) < length p"
  shows "workdir_ok H (fs(p := x))"
  using assms(1) by (rule workdir_ok_cong) (use assms(2) in auto)

lemma workdir_ok_ensure: "workdir_ok H fs \<Longrightarrow> workdir_ok H (ensure_dirs H n fs)"
  by (erule workdir_ok_cong) (auto simp: ensure_dirs_def agents_root_def agent_folder_def)

lemma path_lengths [simp]:
  "length (cwd H) < length (agents_root H)" "length (cwd H) < length (agent_folder H n)"
  "length (cwd H) < length (config_path H n)" "length (cwd H) < length (memory_path H n)"
  "length (cwd H) < length (memories_path H n)"
  by (simp_all add: agents_root_def agent_folder_def config_path_def memory_path_def
      memories_path_def)

lemma paths_distinct [simp]:
  "agents_root H \<noteq> agent_folder H n" "agents_root H \<noteq> config_path H n"
  "agent_folder H n \<noteq> config_path H n" "agent_folder H n \<noteq> agents_root H"
  "config_path H n \<noteq> agents_root H" "config_path H n \<noteq> agent_folder H n"
  "agents_root H \<noteq> []" "agent_folder H n \<noteq> []" "config_path H n \<noteq> []"
  "memory_path H n \<noteq> []" "memories_path H n \<noteq> []"
  by (simp_all add: agents_root_def agent_folder_def config_path_def memory_path_def
      memories_path_def)

lemma node_at_paths [simp]:
  "node_at fs (agents_root H) = fs (agents_root H)"
  "node_at fs (agent_folder H n) = fs (agent_folder H n)"
  "node_at fs (config_path H n) = fs (config_path H n)"
  "node_at fs (memory_path H n) = fs (memory_path H n)"
  "node_at fs (memories_path H n) = fs (memories_path H n)"
  by (simp_all add: node_at_def)

lemma refused_folder: "path_component n \<Longrightarrow> refused (''agents/'' @ n) = None"
  by (auto simp: refused_def path_component_def utf8_len_Cons)

lemma makedirs_agents:
  assumes "workdir_ok H fs" and "fs (agents_root H) = None"
  shows "os_makedirs H fs ''agents'' = (Inr (), fs(agents_root H \<mapsto> Dir))"
proof -
  have d: "node_at fs (cwd H) = Some Dir"
    using workdir_okD(2) [OF assms(1)] by (simp add: is_dir_def)
  have r: "refused ''agents'' = None" by (simp add: refused_def utf8_len_def)
  have u: "\<not> 255 < utf8_len ''agents''" by (simp add: utf8_len_def)
  show ?thesis
    using d r u assms(2) workdir_okD(2) [OF assms(1)]
    by (simp add: os_makedirs_def start_dir_def isabs_def agents_root_def node_at_def)
qed

lemma makedirs_folder:
  assumes "workdir_ok H fs" and "path_component n"
  shows "os_makedirs H fs (''agents/'' @ n) =
     (if is_file fs (agents_root H) then (Inl NotADirectoryError, fs)
      else
        (let fs1 = (if fs (agents_root H) = None then fs(agents_root H \<mapsto> Dir) else fs) in
         if fs (agent_folder H n) = None then (Inr (), fs1(agent_folder H n \<mapsto> Dir))
         else (Inl FileExistsError, fs1)))"
proof -
  note pc = path_componentD [OF assms(2)]
  have d: "node_at fs (cwd H) = Some Dir"
    using workdir_okD(2) [OF assms(1)] by (simp add: is_dir_def)
  have sp: "split_on (CHR ''/'') (''agents/'' @ n) = [''agents'', n]"
    using split_join_slash [of "[''agents'', n]"] pc(4) by simp
  have u: "\<not> 255 < utf8_len ''agents''" "\<not> 255 < utf8_len n"
    using pc(6) by (simp_all add: utf8_len_def)
  have na: "start_dir H (''agents/'' @ n) = cwd H" by (simp add: start_dir_def isabs_def)
  have cm: "rev (dropWhile (\<lambda>c. c = []) (rev [''agents'', n])) = [''agents'', n]"
    using pc(1) by simp
  have w: "makedirs_walk fs (cwd H) [''agents'', n] =
     (if is_file fs (agents_root H) then (Inl NotADirectoryError, fs)
      else (Inr (agent_folder H n),
            if fs (agents_root H) = None then fs(agents_root H \<mapsto> Dir) else fs))"
    using d u pc(1,2,3)
    by (auto simp: agents_root_def agent_folder_def node_at_def is_file_def
        split: option.splits node.splits)
  have "os_makedirs H fs (''agents/'' @ n) =
     (case makedirs_walk fs (cwd H) [''agents'', n] of
        (Inl e, fs1) \<Rightarrow> (Inl e, fs1)
      | (Inr p, fs1) \<Rightarrow>
          if node_at fs1 p = None then (Inr (), fs1(p \<mapsto> Dir))
          else if [''agents'', n] \<noteq> [] \<and> last [''agents'', n] = ''.'' \<and> node_at fs p = None
          then (Inr (), fs1)
          else (Inl FileExistsError, fs1))"
    unfolding os_makedirs_def Let_def refused_folder [OF assms(2)] sp na cm
    using workdir_okD(2) [OF assms(1)] by (simp del: makedirs_walk.simps)
  then show ?thesis
    unfolding w using pc(2) by (auto simp: Let_def)
qed

section \<open>What \<^verbatim>\<open>add_agent\<close> does\<close>

lemmas resolve_folder' = resolve_folder [unfolded append.simps]
lemmas makedirs_folder' = makedirs_folder [unfolded append.simps]
lemmas join_names' = join_names [unfolded append.simps]
lemmas abspath_names' = abspath_names [unfolded append.simps]
lemmas abspath_yaml' = abspath_yaml [unfolded append.simps]
lemmas join_yaml' = join_yaml [unfolded append.simps]
lemmas resolve_memory' = resolve_memory [unfolded append.simps]

lemma exists_agents:
  "workdir_ok H fs \<Longrightarrow> path_exists H fs ''agents'' = (fs (agents_root H) \<noteq> None)"
  by (simp add: path_exists_def resolve_agents)

lemma exists_folder:
  "workdir_ok H fs \<Longrightarrow> path_component n \<Longrightarrow>
     path_exists H fs (''agents/'' @ n) = (is_dir fs (agents_root H) \<and> fs (agent_folder H n) \<noteq> None)"
  by (simp add: path_exists_def resolve_folder')

lemmas exists_folder' = exists_folder [unfolded append.simps]

lemma is_dir_paths [simp]:
  "is_dir fs (agents_root H) = (fs (agents_root H) = Some Dir)"
  "is_dir fs (agent_folder H n) = (fs (agent_folder H n) = Some Dir)"
  by (simp_all add: is_dir_def)

lemma is_file_agents: "is_file fs (agents_root H) = (\<exists>t. fs (agents_root H) = Some (File t))"
  by (auto simp: is_file_def split: option.splits node.splits)

lemma create_agent_folder_valid:
  assumes "workdir_ok H fs" and "path_component n"
  shows "create_agent_folder H n fs =
     (if is_file fs (agents_root H) then (Inl NotADirectoryError, fs)
      else (Inr (''agents/'' @ n), ensure_dirs H n fs))"
proof (cases "fs (agents_root H)")
  case None
  let ?fs1 = "fs(agents_root H \<mapsto> Dir)"
  have w1: "workdir_ok H ?fs1" using assms(1) by (simp add: workdir_ok_upd)
  have e: "ensure_dirs H n fs =
      (if fs (agent_folder H n) = None then ?fs1(agent_folder H n \<mapsto> Dir) else ?fs1)"
    using None by (auto simp: ensure_dirs_def fun_eq_iff)
  show ?thesis
    using None e
    by (simp add: Let_def create_agent_folder_def exists_agents [OF assms(1)] makedirs_agents [OF assms(1)]
        exists_folder' [OF w1 assms(2)] makedirs_folder' [OF w1 assms(2)] is_file_agents)
next
  case (Some a)
  show ?thesis
  proof (cases a)
    case (File t)
    then show ?thesis
      using Some
      by (simp add: Let_def create_agent_folder_def exists_agents [OF assms(1)]
          exists_folder' [OF assms] makedirs_folder' [OF assms] is_file_agents)
  next
    case Dir
    have e: "ensure_dirs H n fs =
        (if fs (agent_folder H n) = None then fs(agent_folder H n \<mapsto> Dir) else fs)"
      using Some Dir by (auto simp: ensure_dirs_def fun_eq_iff)
    show ?thesis
      using Some Dir e
      by (simp add: Let_def create_agent_folder_def exists_agents [OF assms(1)]
          exists_folder' [OF assms] makedirs_folder' [OF assms] is_file_agents)
  qed
qed

lemma resolve_config:
  assumes "workdir_ok H fs" and "path_component n"
  shows "resolve H fs (''agents/'' @ n @ ''/config.json'') = under_folder H fs n ''config.json''"
    and "resolve H fs (render (config_path H n)) = under_folder H fs n ''config.json''"
  using resolve_in_folder [OF assms literal_components(2)]
  by (simp_all add: utf8_len_def config_path_def agent_folder_def)

lemmas resolve_config' = resolve_config [unfolded append.simps]

lemma under_folder_config:
  "under_folder H fs n ''config.json'' =
     (if fs (agents_root H) = Some Dir then
        if fs (agent_folder H n) = Some Dir then Inr (config_path H n)
        else Inl (not_a_dir fs (agent_folder H n))
      else Inl (not_a_dir fs (agents_root H)))"
  by (auto simp: under_folder_def config_path_def agent_folder_def agents_root_def is_dir_def
      node_at_def)

lemma create_agent_config_file_valid:
  assumes "workdir_ok H fs" and "path_component n"
    and "fs (agents_root H) = Some Dir" and "fs (agent_folder H n) \<noteq> None"
  shows "create_agent_config_file H n ps cmds fs =
     (if fs (agent_folder H n) \<noteq> Some Dir then (Inl NotADirectoryError, fs)
      else if fs (config_path H n) = Some Dir then (Inl IsADirectoryError, fs)
      else (Inr (''agents/'' @ n @ ''/config.json''),
            fs(config_path H n \<mapsto> File (json_dumps H (config_document cmds ps)))))"
  using assms(3,4)
  by (auto simp: create_agent_config_file_def join_names' [OF assms(2)] exists_folder' [OF assms(1,2)]
      open_write_def resolve_config' [OF assms(1,2)] under_folder_config not_a_dir_def Let_def
      split: option.splits node.splits)

lemma ensure_dirs_at [simp]:
  "ensure_dirs H n fs (agents_root H) = (case fs (agents_root H) of None \<Rightarrow> Some Dir | x \<Rightarrow> x)"
  "ensure_dirs H n fs (agent_folder H n) = (case fs (agent_folder H n) of None \<Rightarrow> Some Dir | x \<Rightarrow> x)"
  "ensure_dirs H n fs (config_path H n) = fs (config_path H n)"
  by (auto simp: ensure_dirs_def split: option.splits)

lemma add_agent_valid:
  assumes "workdir_ok H fs" and "path_component n"
  shows "add_agent H n ps fs =
     (if is_file fs (agents_root H) then (Inl NotADirectoryError, fs)
      else
        (case load_commands H of
           Inl e \<Rightarrow> (Inl e, ensure_dirs H n fs)
         | Inr cmds \<Rightarrow>
             if is_file fs (agent_folder H n) then (Inl NotADirectoryError, ensure_dirs H n fs)
             else if fs (config_path H n) = Some Dir then (Inl IsADirectoryError, ensure_dirs H n fs)
             else (Inr (PDict (fmupd ''agent_file'' (PStr (n @ ''.yaml'')) fmempty)),
                   (ensure_dirs H n fs)(config_path H n \<mapsto>
                      File (json_dumps H (config_document (command_dict cmds) ps))))))"
proof (cases "is_file fs (agents_root H)")
  case True
  then show ?thesis
    by (simp add: add_agent_def create_agent_folder_valid [OF assms])
next
  case False
  let ?fs1 = "ensure_dirs H n fs"
  have w1: "workdir_ok H ?fs1" using assms(1) by (rule workdir_ok_ensure)
  have a: "?fs1 (agents_root H) = Some Dir"
  proof (cases "fs (agents_root H)")
    case None
    then show ?thesis by simp
  next
    case (Some x)
    with False show ?thesis by (cases x) (auto simp: is_file_agents)
  qed
  have f: "?fs1 (agent_folder H n) \<noteq> None" by (simp split: option.splits)
  have fd: "?fs1 (agent_folder H n) \<noteq> Some Dir \<longleftrightarrow> is_file fs (agent_folder H n)"
    by (auto simp: is_file_def split: option.splits node.splits)
  show ?thesis
    using False fd
    by (simp add: add_agent_def create_agent_folder_valid [OF assms]
        create_agent_config_file_valid [OF w1 assms(2) a f] split: sum.splits)
qed

section \<open>The loop of \<^verbatim>\<open>get_agent_config\<close>\<close>

lemma watched_file:
  assumes "workdir_ok H fs" and "path_component n"
  shows "path_exists H fs (abspath H (''agents/'' @ n @ ''/config.json'')) =
           (fs (agents_root H) = Some Dir \<and> fs (agent_folder H n) = Some Dir
              \<and> fs (config_path H n) \<noteq> None)"
    and "fs (agents_root H) = Some Dir \<Longrightarrow> fs (agent_folder H n) = Some Dir \<Longrightarrow>
         open_read H fs (abspath H (''agents/'' @ n @ ''/config.json'')) =
           (case fs (config_path H n) of
              Some (File t) \<Rightarrow> Inr t
            | Some Dir \<Rightarrow> Inl IsADirectoryError
            | None \<Rightarrow> Inl FileNotFoundError)"
  using abspath_names(1) [OF workdir_okD(1) [OF assms(1)] assms(2)]
  by (simp_all add: path_exists_def open_read_def resolve_config [OF assms] under_folder_config)

lemmas watched_file' = watched_file [unfolded append.simps]

lemma body_reads:
  assumes "workdir_ok H fs" and "path_component n"
    and "fs (agents_root H) = Some Dir" and "fs (agent_folder H n) = Some Dir"
    and "fs (config_path H n) = Some (File t)" and "strip t \<noteq> []"
  shows "get_agent_config_body H n fs =
     Break (case json_loads H (strip t) of None \<Rightarrow> Inl JSONDecodeError | Some c \<Rightarrow> Inr c, fs)"
  using assms(3-6)
  by (simp add: get_agent_config_body_def watched_file' [OF assms(1,2)] Let_def
      split: option.splits)

lemma body_regenerates:
  assumes "workdir_ok H fs" and "path_component n"
    and "fs (config_path H n) = None \<or> (\<exists>t. fs (config_path H n) = Some (File t) \<and> strip t = [])"
  shows "get_agent_config_body H n fs = regenerate H n fs"
  using assms(3)
  by (auto simp: get_agent_config_body_def watched_file' [OF assms(1,2)] Let_def regenerate_def)

lemma body_continue:
  "get_agent_config_body H n fs = Continue fs1 \<Longrightarrow> \<exists>x. add_agent H n fmempty fs = (Inr x, fs1)"
  by (auto simp: get_agent_config_body_def Let_def
      split: if_splits sum.splits option.splits prod.splits)

lemma add_agent_success:
  assumes "workdir_ok H fs" and "path_component n" and "add_agent H n ps fs = (Inr x, fs1)"
  shows "\<exists>cmds. load_commands H = Inr cmds
     \<and> fs1 = (ensure_dirs H n fs)(config_path H n \<mapsto>
               File (json_dumps H (config_document (command_dict cmds) ps)))
     \<and> fs1 (agents_root H) = Some Dir \<and> fs1 (agent_folder H n) = Some Dir
     \<and> workdir_ok H fs1"
proof -
  from assms(3) obtain cmds where l: "load_commands H = Inr cmds"
    and nf: "\<not> is_file fs (agents_root H)" "\<not> is_file fs (agent_folder H n)"
    and e: "fs1 = (ensure_dirs H n fs)(config_path H n \<mapsto>
               File (json_dumps H (config_document (command_dict cmds) ps)))"
    by (auto simp: add_agent_valid [OF assms(1,2)] split: if_splits sum.splits)
  have a: "fs1 (agents_root H) = Some Dir"
    using nf(1) e by (cases "fs (agents_root H)"; cases "the (fs (agents_root H))")
      (auto simp: is_file_def)
  have f: "fs1 (agent_folder H n) = Some Dir"
    using nf(2) e by (cases "fs (agent_folder H n)"; cases "the (fs (agent_folder H n))")
      (auto simp: is_file_def)
  have w: "workdir_ok H fs1"
    unfolding e using workdir_ok_ensure [OF assms(1)] by (simp add: workdir_ok_upd)
  from l e a f w show ?thesis by blast
qed

lemma get_agent_config_regenerated:
  assumes "workdir_ok H fs" and "path_component n"
    and "\<not> is_file fs (agents_root H)"
    and "fs (agent_folder H n) = None \<or> fs (agent_folder H n) = Some Dir"
    and "fs (config_path H n) = None \<or> (\<exists>t. fs (config_path H n) = Some (File t) \<and> strip t = [])"
    and "load_commands H = Inr cmds"
    and "strip (json_dumps H (config_document (command_dict cmds) fmempty)) \<noteq> []"
    and "json_loads H (strip (json_dumps H (config_document (command_dict cmds) fmempty)))
           = Some (config_document (command_dict cmds) fmempty)"
  shows "get_agent_config H n fs =
     Some (Inr (config_document (command_dict cmds) fmempty),
           (ensure_dirs H n fs)(config_path H n \<mapsto>
              File (json_dumps H (config_document (command_dict cmds) fmempty))))"
proof -
  let ?doc = "config_document (command_dict cmds) fmempty"
  let ?fs1 = "(ensure_dirs H n fs)(config_path H n \<mapsto> File (json_dumps H ?doc))"
  have nf: "\<not> is_file fs (agent_folder H n)"
    using assms(4) by (auto simp: is_file_def)
  have nd: "fs (config_path H n) \<noteq> Some Dir" using assms(5) by auto
  have a: "add_agent H n fmempty fs =
      (Inr (PDict (fmupd ''agent_file'' (PStr (n @ ''.yaml'')) fmempty)), ?fs1)"
    using assms(3,6) nf nd by (simp add: add_agent_valid [OF assms(1,2)])
  have b: "get_agent_config_body H n fs = Continue ?fs1"
    using a by (simp add: body_regenerates [OF assms(1,2,5)] regenerate_def)
  from add_agent_success [OF assms(1,2) a]
  have s: "?fs1 (agents_root H) = Some Dir" "?fs1 (agent_folder H n) = Some Dir"
    "workdir_ok H ?fs1"
    by auto
  have w: "?fs1 (config_path H n) = Some (File (json_dumps H ?doc))" by simp
  have "get_agent_config_body H n ?fs1 =
      Break (case json_loads H (strip (json_dumps H ?doc)) of
               None \<Rightarrow> Inl JSONDecodeError | Some c \<Rightarrow> Inr c, ?fs1)"
    using s(3) assms(2) s(1,2) w assms(7) by (rule body_reads)
  then have c: "get_agent_config_body H n ?fs1 = Break (Inr ?doc, ?fs1)"
    by (simp add: assms(8))
  show ?thesis
    using b c by (simp add: get_agent_config.simps)
qed

lemma loop_forever:
  assumes "get_agent_config_body H n fs = Continue fs"
  shows "get_agent_config H n fs = None"
proof (rule ccontr)
  assume "get_agent_config H n fs \<noteq> None"
  then obtain r where r: "get_agent_config H n fs = Some r" by auto
  have "\<not> (H = H \<and> n = n \<and> fs = fs)"
  proof (rule get_agent_config.raw_induct
      [where P = "\<lambda>H' n' fs' r'. \<not> (H' = H \<and> n' = n \<and> fs' = fs)", OF _ r])
    fix g H' n' fs' r'
    assume ih: "\<And>H'' n'' fs'' y. g H'' n'' fs'' = Some y \<Longrightarrow> \<not> (H'' = H \<and> n'' = n \<and> fs'' = fs)"
      and st: "(case get_agent_config_body H' n' fs' of Break r \<Rightarrow> Some r
                | Continue fs1 \<Rightarrow> g H' n' fs1) = Some r'"
    show "\<not> (H' = H \<and> n' = n \<and> fs' = fs)"
    proof
      assume eq: "H' = H \<and> n' = n \<and> fs' = fs"
      with st assms have "g H n fs = Some r'" by simp
      from ih [OF this] show False by simp
    qed
  qed
  then show False by simp
qed

section \<open>The concrete host and file system on their inputs\<close>

lemma host_fields [simp]:
  "cwd demo_host = [''srv'', ''app'']" "cwd bare_host = [''srv'', ''app'']"
  "cwd broken_host = [''srv'', ''app'']"
  "json_dumps bare_host = demo_json_dumps" "json_loads bare_host = demo_json_loads"
  "json_dumps demo_host = demo_json_dumps" "json_loads demo_host = demo_json_loads"
  "json_dumps broken_host = demo_json_dumps" "json_loads broken_host = demo_json_loads"
  "yaml_safe_dump demo_host = demo_yaml_dump" "yaml_safe_load demo_host = demo_yaml_load"
  by (simp_all add: demo_host_def bare_host_def broken_host_def)

lemma demo_paths [simp]:
  "agents_root demo_host = [''srv'', ''app'', ''agents'']"
  "agent_folder demo_host n = [''srv'', ''app'', ''agents'', n]"
  "config_path demo_host n = [''srv'', ''app'', ''agents'', n, ''config.json'']"
  "memory_path demo_host n = [''srv'', ''app'', ''agents'', n @ ''.yaml'']"
  "memories_path demo_host n = [''srv'', ''app'', ''agents'', n, ''memories'']"
  "agents_root bare_host = [''srv'', ''app'', ''agents'']"
  "agent_folder bare_host n = [''srv'', ''app'', ''agents'', n]"
  "config_path bare_host n = [''srv'', ''app'', ''agents'', n, ''config.json'']"
  "agents_root broken_host = [''srv'', ''app'', ''agents'']"
  "agent_folder broken_host n = [''srv'', ''app'', ''agents'', n]"
  "config_path broken_host n = [''srv'', ''app'', ''agents'', n, ''config.json'']"
  by (simp_all add: agents_root_def agent_folder_def config_path_def memory_path_def
      memories_path_def)

lemma workdir_ok_demo:
  "workdir_ok bare_host base_fs" "workdir_ok demo_host demo_fs" "workdir_ok bare_host demo_fs"
  "workdir_ok broken_host demo_fs" "workdir_ok demo_host file_root_fs"
  by (simp_all add: workdir_ok_def path_component_def utf8_len_def is_dir_def node_at_def
      getcwd_def base_fs_def demo_fs_def file_root_fs_def)

lemma names_ok:
  "path_component ''Bot1''" "path_component ''Blank''" "path_component ''Broken''"
  "path_component ''Ghost''" "path_component ''Orphan''"
  "path_component (''Ghost'' @ ''.yaml'')" "path_component (''Bot1'' @ ''.yaml'')"
  "path_component (''Orphan'' @ ''.yaml'')"
  by (simp_all add: path_component_def utf8_len_def)

lemma bad_names:
  "\<not> path_component ''/tmp/x''" "\<not> path_component (''Bot1.yaml/x'' @ ''.yaml'')"
  "\<not> path_component ''Bot1/memories/../../Bot1''"
  by (simp_all add: path_component_def)

lemma bare_catalog: "load_commands bare_host = Inr []"
  by (simp add: load_commands_def bare_host_def demo_host_def)

lemma bare_dumps: "demo_json_dumps (config_document fmempty fmempty) = text_fresh"
  by (simp add: demo_json_dumps_def has_setting_def has_command_def config_document_def)

lemma command_dict_Nil: "command_dict [] = fmempty"
  by (simp add: command_dict_def)

lemmas path_defs =
  abspath_def isabs_def normpath_def getcwd_def os_path_join_def join2_def
  path_exists_def resolve_def refused_def utf8_len_def start_dir_def open_read_def
  open_write_def os_makedirs_def is_dir_def node_at_def not_a_dir_def Let_def

lemma tmp_x_first:
  "get_agent_config_body bare_host ''/tmp/x'' base_fs = Continue base_loop_fs"
  by (simp add: get_agent_config_body_def add_agent_def create_agent_folder_def
      create_agent_config_file_def path_defs bare_catalog command_dict_Nil bare_dumps
      base_fs_def base_loop_fs_def)

lemma tmp_x_again:
  "get_agent_config_body bare_host ''/tmp/x'' base_loop_fs = Continue base_loop_fs"
  by (simp add: get_agent_config_body_def add_agent_def create_agent_folder_def
      create_agent_config_file_def path_defs bare_catalog command_dict_Nil bare_dumps
      base_fs_def base_loop_fs_def)

lemma ensure_dirs_present:
  "fs (agents_root H) \<noteq> None \<Longrightarrow> fs (agent_folder H n) \<noteq> None \<Longrightarrow> ensure_dirs H n fs = fs"
  by (auto simp: ensure_dirs_def fun_eq_iff)

lemma command_dict_lookup_aux:
  "fmlookup (fold (\<lambda>(friendly_name, command_name, command_args) d.
       fmupd friendly_name (PBool False) d) cs d0) k =
     (if k \<in> fst ` set cs then Some (PBool False) else fmlookup d0 k)"
  by (induction cs arbitrary: d0) (auto split: prod.splits)

lemma command_dict_lookup:
  "fmlookup (command_dict cs) k = (if k \<in> fst ` set cs then Some (PBool False) else None)"
  by (simp add: command_dict_def command_dict_lookup_aux)

lemma demo_plugins:
  "load_plugin demo_host ''commands/Web.py'' = Inr \<lparr>commands_attr = Some web_commands\<rparr>"
  "load_plugin demo_host ''commands/util.py'' = Inr \<lparr>commands_attr = None\<rparr>"
  by (simp_all add: load_plugin_def splitext_root_def basename_def demo_import_def lower_def
      lower_char_def demo_host_def)

lemma strip_texts:
  "strip text_fresh = text_fresh" "strip text_web = text_web"
  "strip ''  '' = []" "strip ''{oops'' = ''{oops''" "strip [] = []"
  by (simp_all add: strip_def isspace_def text_fresh_def text_web_def)

lemma texts_nonempty: "text_fresh \<noteq> []" "text_web \<noteq> []"
  by (simp_all add: text_fresh_def text_web_def)

lemma demo_loads:
  "demo_json_loads text_fresh = Some doc_fresh" "demo_json_loads text_web = Some doc_web"
  "demo_json_loads text_model = Some doc_model" "demo_json_loads text_tokens = Some doc_tokens"
  "demo_json_loads ''{oops'' = None" "demo_json_loads ''  '' = None"
  by (simp_all add: demo_json_loads_def text_fresh_def text_web_def text_model_def
      text_tokens_def)

lemma demo_never_blank: "strip (demo_json_dumps d) \<noteq> []"
  by (simp add: demo_json_dumps_def strip_def isspace_def text_fresh_def
      text_web_def text_model_def text_tokens_def)

lemma demo_catalog: "load_commands demo_host = Inr (catalog_entries web_commands)"
  using demo_plugins by (simp add: load_commands_def demo_host_def)

lemma broken_catalog: "load_commands broken_host = Inl ImportError"
  by (simp add: load_commands_def broken_host_def demo_host_def load_plugin_def
      splitext_root_def basename_def demo_import_def)

lemma bare_strip:
  "strip (demo_json_dumps (config_document fmempty fmempty)) = text_fresh"
  by (simp add: bare_dumps strip_texts)

lemma bare_loads:
  "demo_json_loads text_fresh = Some (config_document fmempty fmempty)"
  using demo_loads(1) by (simp add: doc_fresh_def)

lemma doc_web_eq:
  "config_document (command_dict (catalog_entries web_commands)) fmempty = doc_web"
  by (simp add: doc_web_def)

lemma demo_dumps_web: "demo_json_dumps doc_web = text_web"
  by (simp add: demo_json_dumps_def has_setting_def has_command_def
      config_document_def doc_web_def command_dict_def catalog_entries_def web_commands_def)

lemma demo_strip: "strip (demo_json_dumps doc_web) = text_web"
  by (simp add: demo_dumps_web strip_texts)

lemma base_entries:
  "base_fs [''srv'', ''app'', ''agents''] = None"
  "base_fs [''srv'', ''app'', ''agents'', n] = None"
  "base_fs [''srv'', ''app'', ''agents'', n, c] = None"
  by (simp_all add: base_fs_def)

lemma demo_entries:
  "demo_fs [''srv'', ''app'', ''agents''] = Some Dir"
  "demo_fs [''srv'', ''app'', ''agents'', ''Blank''] = Some Dir"
  "demo_fs [''srv'', ''app'', ''agents'', ''Blank'', ''config.json''] = Some (File ''  '')"
  "demo_fs [''srv'', ''app'', ''agents'', ''Broken''] = Some Dir"
  "demo_fs [''srv'', ''app'', ''agents'', ''Broken'', ''config.json''] = Some (File ''{oops'')"
  "demo_fs [''srv'', ''app'', ''agents'', ''Bot1''] = Some Dir"
  "demo_fs [''srv'', ''app'', ''agents'', ''Bot1'', ''config.json''] = Some (File text_fresh)"
  "demo_fs [''srv'', ''app'', ''agents'', ''Bot1.yaml''] = Some (File text_log0)"
  "demo_fs [''srv'', ''app'', ''agents'', ''Bot1'', ''memories''] = Some Dir"
  "demo_fs [''srv'', ''app'', ''agents'', ''Orphan''] = Some Dir"
  "demo_fs [''srv'', ''app'', ''agents'', ''Orphan.yaml''] = None"
  "demo_fs [''srv'', ''app'', ''agents'', ''Ghost''] = None"
  "demo_fs [''srv'', ''app'', ''agents'', ''Ghost.yaml''] = None"
  "demo_fs [''srv'', ''app'', ''agents'', ''Ghost'', ''config.json''] = None"
  "demo_fs [''srv'', ''app'', ''agents'', ''tmp'', ''x'', ''config.json''] = Some (File [])"
  by (simp_all add: demo_fs_def base_fs_def)

lemma demo_blank_resolved:
  "get_agent_config demo_host ''Blank'' demo_fs =
     Some (Inr doc_web, demo_fs([''srv'', ''app'', ''agents'', ''Blank'', ''config.json''] \<mapsto>
             File text_web))"
proof -
  have nf: "\<not> is_file demo_fs (agents_root demo_host)"
    by (simp add: is_file_def node_at_def demo_entries)
  have "get_agent_config demo_host ''Blank'' demo_fs =
     Some (Inr (config_document (command_dict (catalog_entries web_commands)) fmempty),
           (ensure_dirs demo_host ''Blank'' demo_fs)(config_path demo_host ''Blank'' \<mapsto>
              File (json_dumps demo_host
                (config_document (command_dict (catalog_entries web_commands)) fmempty))))"
    by (rule get_agent_config_regenerated [OF workdir_ok_demo(2) names_ok(2) nf _ _ demo_catalog])
      (simp_all add: demo_entries strip_texts doc_web_eq demo_strip demo_loads
        texts_nonempty)
  then show ?thesis
    by (simp add: doc_web_eq demo_dumps_web ensure_dirs_present demo_entries)
qed

lemma tmp_x_strings:
  "abspath demo_host (''agents/'' @ ''/tmp/x'' @ ''/config.json'') = ''/srv/app/agents/tmp/x/config.json''"
  "os_path_join ''agents'' [''/tmp/x''] = ''/tmp/x''"
  "os_path_join ''/tmp/x'' [''config.json''] = ''/tmp/x/config.json''"
  by (simp_all add: abspath_def isabs_def normpath_def getcwd_def os_path_join_def join2_def Let_def)

lemma tmp_x_resolve_demo:
  "resolve demo_host demo_fs ''/srv/app/agents/tmp/x/config.json'' =
     Inr [''srv'', ''app'', ''agents'', ''tmp'', ''x'', ''config.json'']"
  "resolve demo_host demo_fs ''agents'' = Inr [''srv'', ''app'', ''agents'']"
  "resolve demo_host demo_fs ''agents//tmp/x'' = Inr [''srv'', ''app'', ''agents'', ''tmp'', ''x'']"
  "resolve demo_host demo_fs ''/tmp/x'' = Inl FileNotFoundError"
  by (simp_all add: resolve_def refused_def utf8_len_def start_dir_def isabs_def is_dir_def
      node_at_def not_a_dir_def demo_fs_def base_fs_def)

lemma tmp_x_makedirs_demo:
  "os_makedirs demo_host demo_fs ''/tmp/x'' =
     (Inr (), demo_fs([''tmp''] \<mapsto> Dir, [''tmp'', ''x''] \<mapsto> Dir))"
  by (simp add: os_makedirs_def refused_def utf8_len_def start_dir_def isabs_def is_dir_def
      node_at_def not_a_dir_def demo_fs_def base_fs_def Let_def)

lemma tmp_x_add_demo:
  "add_agent demo_host ''/tmp/x'' fmempty demo_fs =
     (Inr (PDict (fmupd ''agent_file'' (PStr ''/tmp/x.yaml'') fmempty)), demo_loop_fs)"
proof -
  have f: "create_agent_folder demo_host ''/tmp/x'' demo_fs = (Inr ''agents//tmp/x'', demo_fs)"
  proof -
    have "demo_fs [''srv'', ''app'', ''agents'', ''tmp'', ''x''] = Some Dir"
      by (simp add: demo_fs_def)
    then show ?thesis
      by (simp add: create_agent_folder_def path_exists_def tmp_x_resolve_demo node_at_def
          demo_entries)
  qed
  have w: "open_write demo_host (demo_fs([''tmp''] \<mapsto> Dir, [''tmp'', ''x''] \<mapsto> Dir))
      ''/tmp/x/config.json'' text_web = Inr demo_loop_fs"
    by (simp add: open_write_def resolve_def refused_def utf8_len_def start_dir_def isabs_def
        is_dir_def node_at_def not_a_dir_def demo_loop_fs_def demo_fs_def base_fs_def)
  have c: "create_agent_config_file demo_host ''/tmp/x'' fmempty
      (command_dict (catalog_entries web_commands)) demo_fs = (Inr ''/tmp/x/config.json'', demo_loop_fs)"
    by (simp add: create_agent_config_file_def tmp_x_strings path_exists_def tmp_x_resolve_demo
        tmp_x_makedirs_demo doc_web_eq demo_dumps_web w)
  show ?thesis by (simp add: add_agent_def f demo_catalog c)
qed

lemma tmp_x_blank_first:
  "get_agent_config_body demo_host ''/tmp/x'' demo_fs = Continue demo_loop_fs"
proof -
  have "abspath demo_host (''agents/'' @ ''/tmp/x'' @ ''/config.json'') = ''/srv/app/agents/tmp/x/config.json''"
    by (rule tmp_x_strings)
  then show ?thesis
    by (simp add: get_agent_config_body_def path_exists_def open_read_def tmp_x_resolve_demo
        node_at_def demo_entries strip_texts tmp_x_add_demo)
qed

lemma tmp_x_resolve_loop:
  "resolve demo_host demo_loop_fs ''/srv/app/agents/tmp/x/config.json'' =
     Inr [''srv'', ''app'', ''agents'', ''tmp'', ''x'', ''config.json'']"
  "resolve demo_host demo_loop_fs ''agents'' = Inr [''srv'', ''app'', ''agents'']"
  "resolve demo_host demo_loop_fs ''agents//tmp/x'' = Inr [''srv'', ''app'', ''agents'', ''tmp'', ''x'']"
  "resolve demo_host demo_loop_fs ''/tmp/x'' = Inr [''tmp'', ''x'']"
  "resolve demo_host demo_loop_fs ''/tmp/x/config.json'' = Inr [''tmp'', ''x'', ''config.json'']"
  by (simp_all add: resolve_def refused_def utf8_len_def start_dir_def isabs_def is_dir_def
      node_at_def not_a_dir_def demo_loop_fs_def demo_fs_def base_fs_def)

lemma loop_entries:
  "demo_loop_fs [''srv'', ''app'', ''agents'', ''tmp'', ''x'', ''config.json''] = Some (File [])"
  "demo_loop_fs [''srv'', ''app'', ''agents''] = Some Dir"
  "demo_loop_fs [''srv'', ''app'', ''agents'', ''tmp'', ''x''] = Some Dir"
  "demo_loop_fs [''tmp'', ''x''] = Some Dir"
  "demo_loop_fs [''tmp'', ''x'', ''config.json''] = Some (File text_web)"
  by (simp_all add: demo_loop_fs_def demo_fs_def)

lemma tmp_x_add_loop:
  "add_agent demo_host ''/tmp/x'' fmempty demo_loop_fs =
     (Inr (PDict (fmupd ''agent_file'' (PStr ''/tmp/x.yaml'') fmempty)), demo_loop_fs)"
proof -
  have f: "create_agent_folder demo_host ''/tmp/x'' demo_loop_fs = (Inr ''agents//tmp/x'', demo_loop_fs)"
    by (simp add: create_agent_folder_def path_exists_def tmp_x_resolve_loop node_at_def
        loop_entries)
  have w: "open_write demo_host demo_loop_fs ''/tmp/x/config.json'' text_web = Inr demo_loop_fs"
    by (simp add: open_write_def tmp_x_resolve_loop node_at_def loop_entries fun_upd_idem)
  have c: "create_agent_config_file demo_host ''/tmp/x'' fmempty
      (command_dict (catalog_entries web_commands)) demo_loop_fs =
        (Inr ''/tmp/x/config.json'', demo_loop_fs)"
    by (simp add: create_agent_config_file_def tmp_x_strings path_exists_def tmp_x_resolve_loop
        node_at_def loop_entries doc_web_eq demo_dumps_web w)
  show ?thesis by (simp add: add_agent_def f demo_catalog c)
qed

lemma tmp_x_blank_again:
  "get_agent_config_body demo_host ''/tmp/x'' demo_loop_fs = Continue demo_loop_fs"
proof -
  have "abspath demo_host (''agents/'' @ ''/tmp/x'' @ ''/config.json'') = ''/srv/app/agents/tmp/x/config.json''"
    by (rule tmp_x_strings)
  then show ?thesis
    by (simp add: get_agent_config_body_def path_exists_def open_read_def tmp_x_resolve_loop
        node_at_def loop_entries strip_texts tmp_x_add_loop)
qed

lemma tmp_x_blank_forever: "get_agent_config demo_host ''/tmp/x'' demo_fs = None"
  using tmp_x_blank_first loop_forever [OF tmp_x_blank_again]
  by (subst get_agent_config.simps) simp

section \<open>What discovery yields\<close>

text \<open>
  C8. When the plugin directory holds two modules, in either order, one whose instance
  has a \<^verbatim>\<open>commands\<close> mapping \<open>cs\<close> and one whose instance has no such attribute,
  \<^verbatim>\<open>load_commands\<close> returns without error exactly the entries of \<open>cs\<close>: as many as the
  mapping has items, under the same display names, in the same order. The module without
  the mapping contributes nothing and raises nothing.
\<close>

theorem load_commands_two_modules:
  assumes "glob_commands H = [f1, f2] \<or> glob_commands H = [f2, f1]"
    and "load_plugin H f1 = Inr inst1" and "commands_attr inst1 = Some cs"
    and "load_plugin H f2 = Inr inst2" and "commands_attr inst2 = None"
  shows "load_commands H = Inr (catalog_entries cs)
     \<and> length (catalog_entries cs) = length cs
     \<and> map fst (catalog_entries cs) = map fst cs"
proof -
  have "load_commands H = Inr (catalog_entries cs)"
    using assms by (auto simp: load_commands_def)
  moreover have "length (catalog_entries cs) = length cs"
    by (simp add: catalog_entries_def)
  moreover have "map fst (catalog_entries cs) = map fst cs"
    by (simp add: catalog_entries_def case_prod_unfold)
  ultimately show ?thesis by simp
qed

theorem load_commands_two_modules_witness:
  "glob_commands demo_host = [''commands/Web.py'', ''commands/util.py'']
   \<and> load_plugin demo_host ''commands/Web.py'' = Inr \<lparr>commands_attr = Some web_commands\<rparr>
   \<and> load_plugin demo_host ''commands/util.py'' = Inr \<lparr>commands_attr = None\<rparr>
   \<and> length web_commands = 2
   \<and> load_commands demo_host =
        Inr [(''Search the web'', ''search'', [(''query'', PNone), (''limit'', PInt 5)]),
             (''Fetch page'', ''fetch'', [(''url'', PNone)])]"
proof -
  have g: "glob_commands demo_host = [''commands/Web.py'', ''commands/util.py'']"
    by (simp add: demo_host_def)
  then have g': "glob_commands demo_host = [''commands/Web.py'', ''commands/util.py'']
             \<or> glob_commands demo_host = [''commands/util.py'', ''commands/Web.py'']"
    by simp
  have n: "length web_commands = 2" by (simp add: web_commands_def)
  from load_commands_two_modules [OF g' demo_plugins(1) _ demo_plugins(2)] g n demo_plugins
  show ?thesis by (simp add: catalog_entries_def web_commands_def get_command_params_def)
qed

section \<open>Resolving a configuration\<close>

subsection \<open>A new agent\<close>

text \<open>
  C1, as the code has it. Take an agent name that is one path component, a working
  directory that is in place, and an agent never seen before: neither its folder nor its
  configuration file exists, and \<^verbatim>\<open>agents\<close> is not a regular file. With an empty command
  catalog, \<^verbatim>\<open>get_agent_config\<close> returns after one regeneration: it has created the
  agent folder, written the document \<^verbatim>\<open>{"commands": {}, "settings": {}}\<close> to the
  configuration file, and returns that document. The settings object is empty: the code
  passes \<^verbatim>\<open>{}\<close> as provider settings to \<^verbatim>\<open>add_agent\<close>. The \<^verbatim>\<open>json\<close> library is assumed to
  read back the text it wrote for this document.
\<close>

theorem get_agent_config_fresh:
  assumes "workdir_ok H fs" and "path_component agent_name"
    and "fs (agent_folder H agent_name) = None" and "fs (config_path H agent_name) = None"
    and "\<not> is_file fs (agents_root H)"
    and "load_commands H = Inr []"
    and "strip (json_dumps H (config_document fmempty fmempty)) \<noteq> []"
    and "json_loads H (strip (json_dumps H (config_document fmempty fmempty)))
           = Some (config_document fmempty fmempty)"
  shows "get_agent_config H agent_name fs =
           Some (Inr (config_document fmempty fmempty),
                 (ensure_dirs H agent_name fs)(config_path H agent_name \<mapsto>
                    File (json_dumps H (config_document fmempty fmempty))))
     \<and> ensure_dirs H agent_name fs (agent_folder H agent_name) = Some Dir
     \<and> config_document fmempty fmempty =
         PDict (fmap_of_list [(''commands'', PDict fmempty), (''settings'', PDict fmempty)])"
proof -
  have "get_agent_config H agent_name fs =
           Some (Inr (config_document (command_dict []) fmempty),
                 (ensure_dirs H agent_name fs)(config_path H agent_name \<mapsto>
                    File (json_dumps H (config_document (command_dict []) fmempty))))"
    using assms by (intro get_agent_config_regenerated) (simp_all add: command_dict_Nil)
  moreover have "ensure_dirs H agent_name fs (agent_folder H agent_name) = Some Dir"
    using assms(3) by simp
  moreover have "config_document fmempty fmempty =
         PDict (fmap_of_list [(''commands'', PDict fmempty), (''settings'', PDict fmempty)])"
    by (simp add: config_document_def fmap_ext)
  ultimately show ?thesis
    by (simp add: command_dict_Nil)
qed

theorem get_agent_config_fresh_witness:
  "workdir_ok bare_host base_fs \<and> path_component ''Bot1''
     \<and> base_fs (agent_folder bare_host ''Bot1'') = None
     \<and> base_fs (config_path bare_host ''Bot1'') = None
     \<and> \<not> is_file base_fs (agents_root bare_host)
     \<and> load_commands bare_host = Inr []
     \<and> json_loads bare_host (strip (json_dumps bare_host (config_document fmempty fmempty)))
          = Some (config_document fmempty fmempty)
     \<and> get_agent_config bare_host ''Bot1'' base_fs =
          Some (Inr (config_document fmempty fmempty),
                base_fs([''srv'', ''app'', ''agents''] \<mapsto> Dir,
                        [''srv'', ''app'', ''agents'', ''Bot1''] \<mapsto> Dir,
                        [''srv'', ''app'', ''agents'', ''Bot1'', ''config.json''] \<mapsto>
                          File text_fresh))"
proof -
  have h3: "base_fs (agent_folder bare_host ''Bot1'') = None"
    and h4: "base_fs (config_path bare_host ''Bot1'') = None"
    by (simp_all add: base_entries)
  have h5: "\<not> is_file base_fs (agents_root bare_host)"
    by (simp add: is_file_def node_at_def base_entries)
  have h7: "strip (json_dumps bare_host (config_document fmempty fmempty)) \<noteq> []"
    by (simp add: bare_strip texts_nonempty)
  have h8: "json_loads bare_host (strip (json_dumps bare_host (config_document fmempty fmempty)))
          = Some (config_document fmempty fmempty)"
    by (simp add: bare_strip bare_loads)
  have e: "ensure_dirs bare_host ''Bot1'' base_fs =
      base_fs([''srv'', ''app'', ''agents''] \<mapsto> Dir, [''srv'', ''app'', ''agents'', ''Bot1''] \<mapsto> Dir)"
    by (auto simp: ensure_dirs_def fun_eq_iff base_entries)
  from get_agent_config_fresh [OF workdir_ok_demo(1) names_ok(1) h3 h4 h5 bare_catalog h7 h8]
    workdir_ok_demo(1) names_ok(1) h3 h4 h5 h8
  show ?thesis by (simp add: bare_catalog bare_dumps e)
qed

text \<open>
  The claim as the specification states it fails on the scenario it gives: for \<^verbatim>\<open>Bot1\<close>
  with nothing but the working directory and an empty plugin directory, the returned
  document has empty settings and is not the specification's default document. And it
  fails for a name that is not one path component: for the new name \<^verbatim>\<open>/tmp/x\<close> the loop
  watches \<^verbatim>\<open>/srv/app/agents/tmp/x/config.json\<close> while \<^verbatim>\<open>add_agent\<close> writes
  \<^verbatim>\<open>/tmp/x/config.json\<close>, so the call never returns.
\<close>

theorem get_agent_config_fresh_counterexample:
  "load_commands bare_host = Inr []
     \<and> get_agent_config bare_host ''Bot1'' base_fs =
         Some (Inr doc_fresh,
               base_fs([''srv'', ''app'', ''agents''] \<mapsto> Dir,
                       [''srv'', ''app'', ''agents'', ''Bot1''] \<mapsto> Dir,
                       [''srv'', ''app'', ''agents'', ''Bot1'', ''config.json''] \<mapsto>
                         File text_fresh))
     \<and> settings_of doc_fresh = Some (PDict fmempty)
     \<and> settings_of spec_default_document = Some spec_default_settings
     \<and> spec_default_settings \<noteq> PDict fmempty
     \<and> doc_fresh \<noteq> spec_default_document
     \<and> \<not> path_component ''/tmp/x''
     \<and> get_agent_config bare_host ''/tmp/x'' base_fs = None"
proof -
  have e: "ensure_dirs bare_host ''Bot1'' base_fs =
      base_fs([''srv'', ''app'', ''agents''] \<mapsto> Dir, [''srv'', ''app'', ''agents'', ''Bot1''] \<mapsto> Dir)"
    by (auto simp: ensure_dirs_def fun_eq_iff base_entries)
  have "get_agent_config bare_host ''Bot1'' base_fs =
      Some (Inr (config_document (command_dict []) fmempty),
            (ensure_dirs bare_host ''Bot1'' base_fs)(config_path bare_host ''Bot1'' \<mapsto>
               File (json_dumps bare_host (config_document (command_dict []) fmempty))))"
    by (rule get_agent_config_regenerated [OF workdir_ok_demo(1) names_ok(1)])
      (simp_all add: is_file_def node_at_def bare_catalog command_dict_Nil bare_strip bare_loads
        texts_nonempty base_entries)
  then have r: "get_agent_config bare_host ''Bot1'' base_fs =
         Some (Inr doc_fresh,
               base_fs([''srv'', ''app'', ''agents''] \<mapsto> Dir,
                       [''srv'', ''app'', ''agents'', ''Bot1''] \<mapsto> Dir,
                       [''srv'', ''app'', ''agents'', ''Bot1'', ''config.json''] \<mapsto>
                         File text_fresh))"
    by (simp add: command_dict_Nil doc_fresh_def bare_dumps e)
  have s1: "settings_of doc_fresh = Some (PDict fmempty)"
    by (simp add: settings_of_def doc_fresh_def config_document_def)
  have s2: "settings_of spec_default_document = Some spec_default_settings"
    by (simp add: settings_of_def spec_default_document_def)
  have s3: "spec_default_settings \<noteq> PDict fmempty"
    by (auto simp: spec_default_settings_def
        dest: arg_cong [where f = "\<lambda>m. fmlookup m ''provider''"])
  from s1 s2 s3 have s4: "doc_fresh \<noteq> spec_default_document" by auto
  have l: "get_agent_config bare_host ''/tmp/x'' base_loop_fs = None"
    by (rule loop_forever [OF tmp_x_again])
  have "get_agent_config bare_host ''/tmp/x'' base_fs = None"
    using tmp_x_first l by (subst get_agent_config.simps) simp
  with r s1 s2 s3 s4 bad_names(1) bare_catalog show ?thesis by simp
qed

subsection \<open>A blank configuration file\<close>

text \<open>
  C2, as the code has it. Take an agent name that is one path component and a working
  directory that is in place. For every such agent whose configuration file exists, in
  its folder, and is empty or holds white space only, and whenever the command catalog
  loads, \<^verbatim>\<open>get_agent_config\<close> raises nothing: it regenerates a document in which every
  command of the catalog is disabled (mapped to \<^verbatim>\<open>False\<close>) and whose settings object is
  empty, writes it to the configuration file, changes nothing else and returns it. The
  \<^verbatim>\<open>json\<close> library is assumed to read back the text it wrote for this document.
\<close>

theorem get_agent_config_blank:
  assumes "workdir_ok H fs" and "path_component agent_name"
    and "fs (agents_root H) = Some Dir" and "fs (agent_folder H agent_name) = Some Dir"
    and "fs (config_path H agent_name) = Some (File text)" and "strip text = []"
    and "load_commands H = Inr cmds"
    and "strip (json_dumps H (config_document (command_dict cmds) fmempty)) \<noteq> []"
    and "json_loads H (strip (json_dumps H (config_document (command_dict cmds) fmempty)))
           = Some (config_document (command_dict cmds) fmempty)"
  shows "get_agent_config H agent_name fs =
           Some (Inr (config_document (command_dict cmds) fmempty),
                 fs(config_path H agent_name \<mapsto>
                    File (json_dumps H (config_document (command_dict cmds) fmempty))))
     \<and> config_document (command_dict cmds) fmempty =
         PDict (fmap_of_list [(''commands'', PDict (command_dict cmds)),
                              (''settings'', PDict fmempty)])
     \<and> (\<forall>k. fmlookup (command_dict cmds) k =
            (if k \<in> fst ` set cmds then Some (PBool False) else None))"
proof -
  have nf: "\<not> is_file fs (agents_root H)" using assms(3) by (simp add: is_file_def)
  have "get_agent_config H agent_name fs =
           Some (Inr (config_document (command_dict cmds) fmempty),
                 (ensure_dirs H agent_name fs)(config_path H agent_name \<mapsto>
                    File (json_dumps H (config_document (command_dict cmds) fmempty))))"
    using assms nf by (intro get_agent_config_regenerated) simp_all
  moreover have "ensure_dirs H agent_name fs = fs"
    using assms(3,4) by (simp add: ensure_dirs_present)
  moreover have "config_document (command_dict cmds) fmempty =
         PDict (fmap_of_list [(''commands'', PDict (command_dict cmds)),
                              (''settings'', PDict fmempty)])"
    unfolding config_document_def pyval.inject by (rule fmap_ext) auto
  ultimately show ?thesis
    by (simp add: command_dict_lookup)
qed

theorem get_agent_config_blank_witness:
  "workdir_ok demo_host demo_fs \<and> path_component ''Blank''
     \<and> demo_fs (agents_root demo_host) = Some Dir
     \<and> demo_fs (agent_folder demo_host ''Blank'') = Some Dir
     \<and> demo_fs (config_path demo_host ''Blank'') = Some (File ''  '') \<and> strip ''  '' = []
     \<and> load_commands demo_host = Inr (catalog_entries web_commands)
     \<and> json_loads demo_host (strip (json_dumps demo_host doc_web)) = Some doc_web
     \<and> get_agent_config demo_host ''Blank'' demo_fs =
          Some (Inr doc_web,
                demo_fs([''srv'', ''app'', ''agents'', ''Blank'', ''config.json''] \<mapsto>
                  File text_web))
     \<and> fmlookup (command_dict (catalog_entries web_commands)) ''Search the web''
          = Some (PBool False)
     \<and> fmlookup (command_dict (catalog_entries web_commands)) ''Fetch page''
          = Some (PBool False)"
proof -
  have h3: "demo_fs (agents_root demo_host) = Some Dir"
    and h4: "demo_fs (agent_folder demo_host ''Blank'') = Some Dir"
    and h5: "demo_fs (config_path demo_host ''Blank'') = Some (File ''  '')"
    by (simp_all add: demo_entries)
  have h8: "strip (json_dumps demo_host
              (config_document (command_dict (catalog_entries web_commands)) fmempty)) \<noteq> []"
    by (simp add: doc_web_eq demo_strip texts_nonempty)
  have h9: "json_loads demo_host (strip (json_dumps demo_host
              (config_document (command_dict (catalog_entries web_commands)) fmempty)))
        = Some (config_document (command_dict (catalog_entries web_commands)) fmempty)"
    by (simp add: doc_web_eq demo_strip demo_loads)
  have k: "''Search the web'' \<in> fst ` set (catalog_entries web_commands)"
      "''Fetch page'' \<in> fst ` set (catalog_entries web_commands)"
    by (simp_all add: catalog_entries_def web_commands_def)
  from get_agent_config_blank [OF workdir_ok_demo(2) names_ok(2) h3 h4 h5 strip_texts(3)
      demo_catalog h8 h9] workdir_ok_demo(2) names_ok(2) h3 h4 h5 strip_texts demo_catalog h9 k
  show ?thesis by (simp add: doc_web_eq demo_dumps_web)
qed

text \<open>
  The claim as the specification states it fails in each of its parts. A configuration
  file that is not blank and not JSON makes \<^verbatim>\<open>get_agent_config\<close> raise the decode error,
  with nothing regenerated. The document regenerated for a blank file has empty settings,
  not the specification's default provider settings. With a plugin that cannot be
  imported the blank file makes the call raise the import error. And for the name
  \<^verbatim>\<open>/tmp/x\<close>, which is not one path component, the blank file
  \<^verbatim>\<open>/srv/app/agents/tmp/x/config.json\<close> stays blank, since \<^verbatim>\<open>add_agent\<close> writes
  \<^verbatim>\<open>/tmp/x/config.json\<close>, and the call never returns.
\<close>

theorem get_agent_config_blank_counterexample:
  "demo_fs (config_path demo_host ''Broken'') = Some (File ''{oops'')
     \<and> json_loads demo_host ''{oops'' = None
     \<and> get_agent_config demo_host ''Broken'' demo_fs = Some (Inl JSONDecodeError, demo_fs)
     \<and> demo_fs (config_path demo_host ''Blank'') = Some (File ''  '')
     \<and> get_agent_config demo_host ''Blank'' demo_fs =
         Some (Inr doc_web,
               demo_fs([''srv'', ''app'', ''agents'', ''Blank'', ''config.json''] \<mapsto>
                 File text_web))
     \<and> settings_of doc_web = Some (PDict fmempty)
     \<and> spec_default_settings \<noteq> PDict fmempty
     \<and> load_commands broken_host = Inl ImportError
     \<and> get_agent_config broken_host ''Blank'' demo_fs = Some (Inl ImportError, demo_fs)
     \<and> \<not> path_component ''/tmp/x''
     \<and> demo_fs [''srv'', ''app'', ''agents'', ''tmp'', ''x'', ''config.json''] = Some (File [])
     \<and> abspath demo_host (''agents/'' @ ''/tmp/x'' @ ''/config.json'') =
          ''/srv/app/agents/tmp/x/config.json''
     \<and> get_agent_config demo_host ''/tmp/x'' demo_fs = None"
proof -
  have l: "json_loads demo_host ''{oops'' = None"
    by (simp add: demo_loads)
  have ne: "strip ''{oops'' \<noteq> []" by (simp add: strip_texts)
  have b: "get_agent_config_body demo_host ''Broken'' demo_fs = Break (Inl JSONDecodeError, demo_fs)"
    using body_reads [of demo_host demo_fs "''Broken''" "''{oops''", OF workdir_ok_demo(2) names_ok(3)]
      ne l
    by (simp add: strip_texts demo_entries)
  have r: "get_agent_config demo_host ''Broken'' demo_fs = Some (Inl JSONDecodeError, demo_fs)"
    using b by (simp add: get_agent_config.simps)
  have s: "settings_of doc_web = Some (PDict fmempty)"
    by (simp add: settings_of_def doc_web_def config_document_def)
  have d: "spec_default_settings \<noteq> PDict fmempty"
    by (auto simp: spec_default_settings_def
        dest: arg_cong [where f = "\<lambda>m. fmlookup m ''provider''"])
  have a: "add_agent broken_host ''Blank'' fmempty demo_fs = (Inl ImportError, demo_fs)"
    by (simp add: add_agent_valid [OF workdir_ok_demo(4) names_ok(2)] is_file_def node_at_def
        demo_entries broken_catalog ensure_dirs_present)
  have "get_agent_config_body broken_host ''Blank'' demo_fs = regenerate broken_host ''Blank'' demo_fs"
    by (rule body_regenerates [OF workdir_ok_demo(4) names_ok(2)])
      (simp add: demo_entries strip_texts)
  then have i: "get_agent_config broken_host ''Blank'' demo_fs = Some (Inl ImportError, demo_fs)"
    by (simp add: get_agent_config.simps regenerate_def a)
  from l r s d i demo_entries demo_blank_resolved broken_catalog bad_names(1) tmp_x_strings(1)
    tmp_x_blank_forever
  show ?thesis by simp
qed

subsection \<open>Termination\<close>

text \<open>
  C3, as the code has it. For every agent name that is one path component, every working
  directory that is in place and every file system, a call of \<^verbatim>\<open>get_agent_config\<close>
  returns, with a document or with an exception. It leaves the loop on the first pass, or
  the first pass regenerates the file and the second pass leaves the loop: there is at most
  one regeneration. The second pass writes nothing, and if it cannot parse what it reads
  the decode error is raised, not retried. The \<^verbatim>\<open>json\<close> library is assumed never to
  produce a blank text.
\<close>

theorem get_agent_config_terminates:
  assumes "workdir_ok H fs" and "path_component agent_name"
    and "\<forall>d. strip (json_dumps H d) \<noteq> []"
  shows "\<exists>r. get_agent_config H agent_name fs = Some r
     \<and> (get_agent_config_body H agent_name fs = Break r
        \<or> (\<exists>fs1. get_agent_config_body H agent_name fs = Continue fs1
              \<and> get_agent_config_body H agent_name fs1 = Break r
              \<and> snd r = fs1
              \<and> (fst r = Inl JSONDecodeError \<or> (\<exists>c. fst r = Inr c))))"
proof (cases "get_agent_config_body H agent_name fs")
  case (Break r)
  then show ?thesis by (simp add: get_agent_config.simps)
next
  case (Continue fs1)
  from body_continue [OF Continue] obtain x where "add_agent H agent_name fmempty fs = (Inr x, fs1)"
    by blast
  from add_agent_success [OF assms(1,2) this] obtain cmds where
    w: "fs1 (config_path H agent_name) =
          Some (File (json_dumps H (config_document (command_dict cmds) fmempty)))"
    and a: "fs1 (agents_root H) = Some Dir" and f: "fs1 (agent_folder H agent_name) = Some Dir"
    and ok: "workdir_ok H fs1"
    by auto
  let ?t = "json_dumps H (config_document (command_dict cmds) fmempty)"
  let ?r = "(case json_loads H (strip ?t) of None \<Rightarrow> Inl JSONDecodeError | Some c \<Rightarrow> Inr c, fs1)"
  from assms(3) have nb: "strip ?t \<noteq> []" by blast
  have b: "get_agent_config_body H agent_name fs1 = Break ?r"
    using ok assms(2) a f w nb by (rule body_reads)
  have "get_agent_config H agent_name fs = Some ?r"
    using Continue b by (simp add: get_agent_config.simps)
  moreover have "fst ?r = Inl JSONDecodeError \<or> (\<exists>c. fst ?r = Inr c)"
    by (simp split: option.splits)
  ultimately show ?thesis using Continue b by auto
qed

theorem get_agent_config_terminates_witness:
  "workdir_ok demo_host demo_fs \<and> path_component ''Blank''
     \<and> (\<forall>d. strip (json_dumps demo_host d) \<noteq> [])
     \<and> get_agent_config_body demo_host ''Blank'' demo_fs =
          Continue (demo_fs([''srv'', ''app'', ''agents'', ''Blank'', ''config.json''] \<mapsto>
                      File text_web))
     \<and> get_agent_config_body demo_host ''Blank''
          (demo_fs([''srv'', ''app'', ''agents'', ''Blank'', ''config.json''] \<mapsto> File text_web))
          = Break (Inr doc_web,
                   demo_fs([''srv'', ''app'', ''agents'', ''Blank'', ''config.json''] \<mapsto>
                     File text_web))
     \<and> get_agent_config demo_host ''Blank'' demo_fs =
          Some (Inr doc_web,
                demo_fs([''srv'', ''app'', ''agents'', ''Blank'', ''config.json''] \<mapsto>
                  File text_web))"
proof -
  let ?fs1 = "demo_fs([''srv'', ''app'', ''agents'', ''Blank'', ''config.json''] \<mapsto> File text_web)"
  have h: "\<forall>d. strip (json_dumps demo_host d) \<noteq> []"
    by (simp add: demo_never_blank)
  from get_agent_config_terminates [OF workdir_ok_demo(2) names_ok(2) h] demo_blank_resolved
  have "get_agent_config_body demo_host ''Blank'' demo_fs = Break (Inr doc_web, ?fs1)
    \<or> (get_agent_config_body demo_host ''Blank'' demo_fs = Continue ?fs1
     \<and> get_agent_config_body demo_host ''Blank'' ?fs1 = Break (Inr doc_web, ?fs1))"
    by auto
  moreover have "get_agent_config_body demo_host ''Blank'' demo_fs
      = regenerate demo_host ''Blank'' demo_fs"
    by (rule body_regenerates [OF workdir_ok_demo(2) names_ok(2)])
      (simp add: demo_entries strip_texts)
  then have "get_agent_config_body demo_host ''Blank'' demo_fs \<noteq> Break (Inr doc_web, ?fs1)"
    by (auto simp: regenerate_def split: prod.splits sum.splits)
  ultimately show ?thesis using h demo_blank_resolved workdir_ok_demo(2) names_ok(2) by simp
qed

text \<open>
  The claim as the specification states it, for every agent name, fails for a name that
  is not one path component. For \<^verbatim>\<open>/tmp/x\<close> the loop watches
  \<^verbatim>\<open>/srv/app/agents/tmp/x/config.json\<close> while \<^verbatim>\<open>add_agent\<close> writes \<^verbatim>\<open>/tmp/x/config.json\<close>:
  the first pass regenerates, every later pass regenerates again in the same state, and
  the call never returns.
\<close>

theorem get_agent_config_terminates_counterexample:
  "\<not> path_component ''/tmp/x''
     \<and> workdir_ok bare_host base_fs
     \<and> abspath bare_host (''agents/'' @ ''/tmp/x'' @ ''/config.json'') =
          ''/srv/app/agents/tmp/x/config.json''
     \<and> os_path_join (os_path_join ''agents'' [''/tmp/x'']) [''config.json''] =
          ''/tmp/x/config.json''
     \<and> get_agent_config_body bare_host ''/tmp/x'' base_fs = Continue base_loop_fs
     \<and> get_agent_config_body bare_host ''/tmp/x'' base_loop_fs = Continue base_loop_fs
     \<and> base_loop_fs [''tmp'', ''x'', ''config.json''] = Some (File text_fresh)
     \<and> base_loop_fs [''srv'', ''app'', ''agents'', ''tmp'', ''x'', ''config.json''] = None
     \<and> get_agent_config bare_host ''/tmp/x'' base_fs = None"
proof -
  have l: "get_agent_config bare_host ''/tmp/x'' base_loop_fs = None"
    by (rule loop_forever [OF tmp_x_again])
  have n: "get_agent_config bare_host ''/tmp/x'' base_fs = None"
    using tmp_x_first l by (subst get_agent_config.simps) simp
  have a: "abspath bare_host (''agents/'' @ ''/tmp/x'' @ ''/config.json'') =
          ''/srv/app/agents/tmp/x/config.json''"
    by (simp add: abspath_def isabs_def normpath_def getcwd_def os_path_join_def join2_def Let_def)
  have e: "base_loop_fs [''tmp'', ''x'', ''config.json''] = Some (File text_fresh)"
    "base_loop_fs [''srv'', ''app'', ''agents'', ''tmp'', ''x'', ''config.json''] = None"
    by (simp_all add: base_loop_fs_def base_fs_def)
  from bad_names(1) workdir_ok_demo(1) a tmp_x_strings(2,3) tmp_x_first tmp_x_again e n
  show ?thesis by simp
qed

section \<open>Updating a configuration\<close>

lemma walk_write:
  "walk fs cur cs = Inr p \<Longrightarrow> \<not> is_dir fs p \<Longrightarrow> walk (put_file fs p t) cur cs = Inr p"
proof (induction cs arbitrary: cur)
  case Nil
  then show ?case by simp
next
  case (Cons c cs)
  from Cons.prems(1) have d: "is_dir fs cur" by (auto split: if_splits)
  with Cons.prems(2) have "cur \<noteq> p" by auto
  with d have d': "is_dir (put_file fs p t) cur"
    by (auto simp: is_dir_def node_at_def put_file_def split: if_splits)
  from Cons.prems d show ?case
    by (auto simp: d' split: if_splits intro: Cons.IH)
qed

lemma resolve_write:
  assumes "resolve H fs s = Inr p" and "node_at fs p \<noteq> Some Dir"
  shows "resolve H (fs(p \<mapsto> File t)) s = Inr p"
proof -
  from assms(2) have "\<not> is_dir fs p" by (simp add: is_dir_def)
  with assms(1) show ?thesis
    using walk_write [of fs "start_dir H s" "split_on (CHR ''/'') s" p t]
    by (auto simp: resolve_def put_file_def split: option.splits)
qed

lemma node_at_written: "node_at fs p \<noteq> Some Dir \<Longrightarrow> node_at (fs(p \<mapsto> File t)) p = Some (File t)"
  by (auto simp: node_at_def)

lemma update_agent_config_ok:
  assumes "resolve H fs (config_file n) = Inr p" and "node_at fs p = Some (File text)"
    and "json_loads H text = Some (PDict m)"
    and "fmlookup m ''settings'' = Some (PDict d)
           \<or> fmlookup m ''settings'' = None \<and> d = fmempty"
  shows "update_agent_config H n s fs =
     (Inr (''Agent '' @ n @ '' configuration updated.''),
      fs(p \<mapsto> File (json_dumps H (PDict (fmupd ''settings'' (PDict (d ++\<^sub>f s)) m)))))"
  using assms
  by (auto simp: update_agent_config_def path_exists_def open_read_def open_write_def Let_def
      fmdom_notI fmdom_notD)

text \<open>
  C5, as the code has it. Let the configuration file of the agent hold a JSON object \<open>m\<close>
  whose settings entry is the object \<open>dflt\<close> (the settings the agent has before the
  updates; the empty object where the entry is absent). Then \<^verbatim>\<open>update_agent_config\<close>
  with \<open>s1\<close> and then with \<open>s2\<close> both succeed, and the file then holds the document \<open>m\<close>
  with its settings entry replaced by \<open>dflt\<close> merged with \<open>s1\<close> and then with \<open>s2\<close>: for
  every key the value of the last of the three mappings that has it. Every other entry of
  the document, the commands mapping among them, is what it was, after the first update
  and after the second, and no other file changes. The \<^verbatim>\<open>json\<close> library is assumed to
  read back the text that the first update wrote.
\<close>

theorem update_agent_config_twice:
  assumes "resolve H fs (config_file agent_name) = Inr p"
    and "node_at fs p = Some (File text)"
    and "json_loads H text = Some (PDict m)"
    and "fmlookup m ''settings'' = Some (PDict dflt)
           \<or> fmlookup m ''settings'' = None \<and> dflt = fmempty"
    and "json_loads H (json_dumps H (PDict (fmupd ''settings'' (PDict (dflt ++\<^sub>f s1)) m)))
           = Some (PDict (fmupd ''settings'' (PDict (dflt ++\<^sub>f s1)) m))"
  shows "update_agent_config H agent_name s1 fs =
          (Inr (''Agent '' @ agent_name @ '' configuration updated.''),
           fs(p \<mapsto> File (json_dumps H
                (PDict (fmupd ''settings'' (PDict (dflt ++\<^sub>f s1)) m)))))
     \<and> update_agent_config H agent_name s2
          (fs(p \<mapsto> File (json_dumps H
                (PDict (fmupd ''settings'' (PDict (dflt ++\<^sub>f s1)) m))))) =
          (Inr (''Agent '' @ agent_name @ '' configuration updated.''),
           fs(p \<mapsto> File (json_dumps H
                (PDict (fmupd ''settings'' (PDict (dflt ++\<^sub>f s1 ++\<^sub>f s2)) m)))))
     \<and> (\<forall>k. fmlookup (dflt ++\<^sub>f s1 ++\<^sub>f s2) k = later_keys_win dflt s1 s2 k)
     \<and> (\<forall>k. k \<noteq> ''settings'' \<longrightarrow>
            fmlookup (fmupd ''settings'' (PDict (dflt ++\<^sub>f s1)) m) k = fmlookup m k
          \<and> fmlookup (fmupd ''settings'' (PDict (dflt ++\<^sub>f s1 ++\<^sub>f s2)) m) k = fmlookup m k)
     \<and> fmlookup (fmupd ''settings'' (PDict (dflt ++\<^sub>f s1 ++\<^sub>f s2)) m) ''commands''
          = fmlookup m ''commands''"
proof -
  let ?m1 = "fmupd ''settings'' (PDict (dflt ++\<^sub>f s1)) m"
  let ?fs1 = "fs(p \<mapsto> File (json_dumps H (PDict ?m1)))"
  have nd: "node_at fs p \<noteq> Some Dir" using assms(2) by simp
  have u1: "update_agent_config H agent_name s1 fs =
      (Inr (''Agent '' @ agent_name @ '' configuration updated.''), ?fs1)"
    using assms(1,2,3,4) by (rule update_agent_config_ok)
  have r1: "resolve H ?fs1 (config_file agent_name) = Inr p"
    using assms(1) nd by (rule resolve_write)
  have f1: "node_at ?fs1 p = Some (File (json_dumps H (PDict ?m1)))"
    using nd by (rule node_at_written)
  have st: "fmlookup ?m1 ''settings'' = Some (PDict (dflt ++\<^sub>f s1))
           \<or> fmlookup ?m1 ''settings'' = None \<and> dflt ++\<^sub>f s1 = fmempty"
    by simp
  have u2: "update_agent_config H agent_name s2 ?fs1 =
      (Inr (''Agent '' @ agent_name @ '' configuration updated.''),
       ?fs1(p \<mapsto> File (json_dumps H
          (PDict (fmupd ''settings'' (PDict (dflt ++\<^sub>f s1 ++\<^sub>f s2)) ?m1)))))"
    using r1 f1 assms(5) st by (rule update_agent_config_ok)
  have w: "\<forall>k. fmlookup (dflt ++\<^sub>f s1 ++\<^sub>f s2) k = later_keys_win dflt s1 s2 k"
    by (auto simp: later_keys_win_def fmdom_notI split: option.splits dest: fmdom_notD)
  from u1 u2 w show ?thesis by simp
qed

lemma demo_config_resolves:
  "resolve demo_host demo_fs (config_file ''Bot1'') =
     Inr [''srv'', ''app'', ''agents'', ''Bot1'', ''config.json'']"
  "resolve demo_host demo_fs (config_file ''Blank'') =
     Inr [''srv'', ''app'', ''agents'', ''Blank'', ''config.json'']"
  "resolve demo_host demo_fs (config_file ''Ghost'') = Inl FileNotFoundError"
  "resolve demo_host demo_fs (config_file ''Listed'') =
     Inr [''srv'', ''app'', ''agents'', ''Listed'', ''config.json'']"
  "resolve demo_host demo_fs (config_file ''Odd'') =
     Inr [''srv'', ''app'', ''agents'', ''Odd'', ''config.json'']"
  by (simp_all add: config_file_def os_path_join_def join2_def resolve_def refused_def
      utf8_len_def start_dir_def isabs_def is_dir_def node_at_def not_a_dir_def demo_fs_def
      base_fs_def)

theorem update_agent_config_twice_witness:
  "resolve demo_host demo_fs (config_file ''Bot1'') =
       Inr [''srv'', ''app'', ''agents'', ''Bot1'', ''config.json'']
     \<and> node_at demo_fs [''srv'', ''app'', ''agents'', ''Bot1'', ''config.json''] =
         Some (File text_fresh)
     \<and> json_loads demo_host text_fresh = Some doc_fresh
     \<and> settings_of doc_fresh = Some (PDict fmempty)
     \<and> json_loads demo_host text_model = Some doc_model
     \<and> update_agent_config demo_host ''Bot1'' (fmupd ''AI_MODEL'' (PStr ''gpt4'') fmempty) demo_fs =
          (Inr ''Agent Bot1 configuration updated.'',
           demo_fs([''srv'', ''app'', ''agents'', ''Bot1'', ''config.json''] \<mapsto> File text_model))
     \<and> update_agent_config demo_host ''Bot1'' (fmupd ''MAX_TOKENS'' (PInt 100) fmempty)
          (demo_fs([''srv'', ''app'', ''agents'', ''Bot1'', ''config.json''] \<mapsto> File text_model)) =
          (Inr ''Agent Bot1 configuration updated.'',
           demo_fs([''srv'', ''app'', ''agents'', ''Bot1'', ''config.json''] \<mapsto> File text_tokens))
     \<and> json_loads demo_host text_tokens = Some doc_tokens"
proof -
  let ?m = "fmupd ''settings'' (PDict fmempty) (fmupd ''commands'' (PDict fmempty) fmempty)"
  let ?s1 = "fmupd ''AI_MODEL'' (PStr ''gpt4'') fmempty"
  let ?s2 = "fmupd ''MAX_TOKENS'' (PInt 100) fmempty"
  let ?p = "[''srv'', ''app'', ''agents'', ''Bot1'', ''config.json'']"
  have l: "json_loads demo_host text_fresh = Some doc_fresh"
      "json_loads demo_host text_model = Some doc_model"
      "json_loads demo_host text_tokens = Some doc_tokens"
    using demo_loads by simp_all
  have h1: "node_at demo_fs ?p = Some (File text_fresh)"
    by (simp add: node_at_def demo_entries)
  have h2: "json_loads demo_host text_fresh = Some (PDict ?m)"
    using l(1) by (simp add: doc_fresh_def config_document_def)
  have h3: "fmlookup ?m ''settings'' = Some (PDict fmempty)
           \<or> fmlookup ?m ''settings'' = None \<and> (fmempty :: (string, pyval) fmap) = fmempty"
    by simp
  have d1: "PDict (fmupd ''settings'' (PDict (fmempty ++\<^sub>f ?s1)) ?m) = doc_model"
    by (simp add: doc_model_def config_document_def)
  have d2: "PDict (fmupd ''settings'' (PDict (fmempty ++\<^sub>f ?s1 ++\<^sub>f ?s2)) ?m) = doc_tokens"
    by (simp add: doc_tokens_def config_document_def)
  have t1: "json_dumps demo_host doc_model = text_model"
    by (simp add: demo_json_dumps_def has_setting_def doc_model_def config_document_def)
  have t2: "json_dumps demo_host doc_tokens = text_tokens"
    by (simp add: demo_json_dumps_def has_setting_def doc_tokens_def config_document_def)
  have h4: "json_loads demo_host (json_dumps demo_host
              (PDict (fmupd ''settings'' (PDict (fmempty ++\<^sub>f ?s1)) ?m)))
           = Some (PDict (fmupd ''settings'' (PDict (fmempty ++\<^sub>f ?s1)) ?m))"
    unfolding d1 t1 by (rule l(2))
  have s: "settings_of doc_fresh = Some (PDict fmempty)"
    by (simp add: settings_of_def doc_fresh_def config_document_def)
  from update_agent_config_twice [where fs = demo_fs and agent_name = "''Bot1''"
      and ?s2.0 = ?s2, OF demo_config_resolves(1) h1 h2 h3 h4]
  have "update_agent_config demo_host ''Bot1'' ?s1 demo_fs =
          (Inr ''Agent Bot1 configuration updated.'', demo_fs(?p \<mapsto> File text_model))
     \<and> update_agent_config demo_host ''Bot1'' ?s2 (demo_fs(?p \<mapsto> File text_model)) =
          (Inr ''Agent Bot1 configuration updated.'', demo_fs(?p \<mapsto> File text_tokens))"
    unfolding d1 d2 t1 t2 by simp
  with l s h1 demo_config_resolves(1) show ?thesis by simp
qed

text \<open>
  The claim as the specification states it, for every agent with an existing
  configuration file, fails where the file does not hold such a document. On the
  existing blank file of \<^verbatim>\<open>Blank\<close> the update raises the decode error; on a file that
  holds a JSON list it raises a type error; on a file whose settings entry is a number it
  raises an attribute error. Nothing is written in any of these cases.
\<close>

theorem update_agent_config_twice_counterexample:
  "path_exists demo_host demo_fs (config_file ''Blank'')
     \<and> open_read demo_host demo_fs (config_file ''Blank'') = Inr ''  ''
     \<and> json_loads demo_host ''  '' = None
     \<and> update_agent_config demo_host ''Blank'' (fmupd ''AI_MODEL'' (PStr ''gpt4'') fmempty) demo_fs
          = (Inl JSONDecodeError, demo_fs)
     \<and> open_read demo_host demo_fs (config_file ''Listed'') = Inr ''[]''
     \<and> json_loads demo_host ''[]'' = Some (PList [])
     \<and> update_agent_config demo_host ''Listed'' (fmupd ''AI_MODEL'' (PStr ''gpt4'') fmempty) demo_fs
          = (Inl TypeError, demo_fs)
     \<and> open_read demo_host demo_fs (config_file ''Odd'') = Inr ''{\"settings\": 1}''
     \<and> json_loads demo_host ''{\"settings\": 1}'' =
          Some (PDict (fmupd ''settings'' (PInt 1) fmempty))
     \<and> update_agent_config demo_host ''Odd'' (fmupd ''AI_MODEL'' (PStr ''gpt4'') fmempty) demo_fs
          = (Inl AttributeError, demo_fs)"
proof -
  have e: "demo_fs [''srv'', ''app'', ''agents'', ''Listed'', ''config.json''] = Some (File ''[]'')"
    "demo_fs [''srv'', ''app'', ''agents'', ''Odd'', ''config.json''] =
       Some (File ''{\"settings\": 1}'')"
    by (simp_all add: demo_fs_def)
  have l: "demo_json_loads ''[]'' = Some (PList [])"
    "demo_json_loads ''{\"settings\": 1}'' = Some (PDict (fmupd ''settings'' (PInt 1) fmempty))"
    by (simp_all add: demo_json_loads_def)
  show ?thesis
    by (simp add: update_agent_config_def path_exists_def open_read_def demo_config_resolves
        node_at_def demo_entries demo_loads e l)
qed

text \<open>
  C6. For every agent name for which no configuration file exists, \<^verbatim>\<open>update_agent_config\<close>
  answers with its not-found message and leaves the file system exactly as it was: no
  configuration file is created on update, unlike on resolution.
\<close>

theorem update_agent_config_missing:
  "\<not> path_exists H fs (config_file agent_name)
     \<Longrightarrow> update_agent_config H agent_name new_config fs
           = (Inr (''Agent '' @ agent_name @ '' configuration not found.''), fs)"
  by (simp add: update_agent_config_def)

theorem update_agent_config_missing_witness:
  "\<not> path_exists demo_host demo_fs (config_file ''Ghost'')
     \<and> update_agent_config demo_host ''Ghost'' (fmupd ''AI_MODEL'' (PStr ''gpt4'') fmempty) demo_fs
           = (Inr ''Agent Ghost configuration not found.'', demo_fs)"
proof -
  have h: "\<not> path_exists demo_host demo_fs (config_file ''Ghost'')"
    by (simp add: path_exists_def demo_config_resolves)
  from h update_agent_config_missing [OF h, of "fmupd ''AI_MODEL'' (PStr ''gpt4'') fmempty"]
  show ?thesis by simp
qed

section \<open>Deleting an agent\<close>

text \<open>
  C7, as the code has it. Take an agent name for which \<^verbatim>\<open><name>.yaml\<close> is one path
  component (the name has no separator and no null character and at most 250 bytes), a
  working directory that is in place, and an \<^verbatim>\<open>agents\<close> entry that is not a regular
  file. If the memory document \<^verbatim>\<open>agents/<name>.yaml\<close> does not exist, \<^verbatim>\<open>delete_agent\<close>
  raises nothing: it returns the pair of a message naming the missing file by its
  absolute path and the status 404, and the file system is unchanged, so that the agent
  folder, if there is one, is still there.
\<close>

theorem delete_agent_missing:
  assumes "workdir_ok H fs" and "path_component (agent_name @ ''.yaml'')"
    and "\<not> is_file fs (agents_root H)"
    and "fs (memory_path H agent_name) = None"
  shows "delete_agent H agent_name fs
           = (Inr (PDict (fmupd ''message''
                  (PStr (''Agent file '' @ render (memory_path H agent_name) @ '' not found.''))
                  fmempty), 404), fs)"
proof -
  have a: "abspath H (''agents/'' @ agent_name @ ''.yaml'') = render (memory_path H agent_name)"
    using workdir_okD(1) [OF assms(1)] assms(2) by (rule abspath_yaml)
  have "fs (agents_root H) = None \<or> fs (agents_root H) = Some Dir"
    using assms(3) by (cases "fs (agents_root H)") (auto simp: is_file_agents intro: node.exhaust)
  then have "os_remove H fs (render (memory_path H agent_name)) = Inl FileNotFoundError"
    using assms(4)
    by (auto simp: os_remove_def resolve_memory(2) [OF assms(1,2)] not_a_dir_def)
  then show ?thesis
    using a by (simp add: delete_agent_def Let_def)
qed

theorem delete_agent_missing_witness:
  "workdir_ok demo_host demo_fs \<and> path_component (''Orphan'' @ ''.yaml'')
     \<and> \<not> is_file demo_fs (agents_root demo_host)
     \<and> demo_fs (memory_path demo_host ''Orphan'') = None
     \<and> delete_agent demo_host ''Orphan'' demo_fs
          = (Inr (PDict (fmupd ''message''
                    (PStr ''Agent file /srv/app/agents/Orphan.yaml not found.'') fmempty), 404),
             demo_fs)
     \<and> demo_fs (agent_folder demo_host ''Orphan'') = Some Dir"
proof -
  have h3: "\<not> is_file demo_fs (agents_root demo_host)"
    by (simp add: is_file_def node_at_def demo_entries)
  have h4: "demo_fs (memory_path demo_host ''Orphan'') = None"
    by (simp add: demo_entries)
  have h5: "demo_fs (agent_folder demo_host ''Orphan'') = Some Dir"
    by (simp add: demo_entries)
  from delete_agent_missing [OF workdir_ok_demo(2) names_ok(8) h3 h4]
    workdir_ok_demo(2) names_ok(8) h3 h4 h5
  show ?thesis by (simp add: render_def)
qed

text \<open>
  The claim as the specification states it, for every agent name, fails where the path
  of the memory document runs through a regular file: no memory document exists for the
  name \<^verbatim>\<open>Bot1.yaml/x\<close>, nor for \<^verbatim>\<open>Ghost\<close> when \<^verbatim>\<open>agents\<close> is a regular file, and in both
  cases \<^verbatim>\<open>os.remove\<close> raises \<^verbatim>\<open>NotADirectoryError\<close>, which \<^verbatim>\<open>delete_agent\<close> does not catch.
  A name with a null character makes it raise \<^verbatim>\<open>ValueError\<close>.
\<close>

theorem delete_agent_missing_counterexample:
  "\<not> path_component (''Bot1.yaml/x'' @ ''.yaml'')
     \<and> \<not> path_exists demo_host demo_fs (abspath demo_host (''agents/'' @ ''Bot1.yaml/x'' @ ''.yaml''))
     \<and> delete_agent demo_host ''Bot1.yaml/x'' demo_fs = (Inl NotADirectoryError, demo_fs)
     \<and> is_file file_root_fs (agents_root demo_host)
     \<and> \<not> path_exists demo_host file_root_fs (abspath demo_host (''agents/'' @ ''Ghost'' @ ''.yaml''))
     \<and> delete_agent demo_host ''Ghost'' file_root_fs = (Inl NotADirectoryError, file_root_fs)
     \<and> \<not> path_component ([CHR 0x00] @ ''.yaml'')
     \<and> \<not> path_exists demo_host demo_fs (abspath demo_host (''agents/'' @ [CHR 0x00] @ ''.yaml''))
     \<and> delete_agent demo_host [CHR 0x00] demo_fs = (Inl ValueError, demo_fs)"
proof -
  have a: "abspath demo_host (''agents/'' @ ''Bot1.yaml/x'' @ ''.yaml'') =
             ''/srv/app/agents/Bot1.yaml/x.yaml''"
     "abspath demo_host (''agents/'' @ ''Ghost'' @ ''.yaml'') = ''/srv/app/agents/Ghost.yaml''"
     "abspath demo_host (''agents/'' @ [CHR 0x00] @ ''.yaml'') =
        ''/srv/app/agents/'' @ [CHR 0x00] @ ''.yaml''"
    by (simp_all add: abspath_def isabs_def normpath_def getcwd_def os_path_join_def join2_def
        Let_def)
  have r: "resolve demo_host demo_fs ''/srv/app/agents/Bot1.yaml/x.yaml'' = Inl NotADirectoryError"
    "resolve demo_host file_root_fs ''/srv/app/agents/Ghost.yaml'' = Inl NotADirectoryError"
    "resolve demo_host demo_fs (''/srv/app/agents/'' @ [CHR 0x00] @ ''.yaml'') = Inl ValueError"
    by (simp_all add: resolve_def refused_def utf8_len_def start_dir_def isabs_def is_dir_def
      node_at_def not_a_dir_def demo_fs_def file_root_fs_def base_fs_def)
  have f: "is_file file_root_fs (agents_root demo_host)"
    by (simp add: is_file_def node_at_def file_root_fs_def)
  have n: "\<not> path_component ([CHR 0x00] @ ''.yaml'')"
    by (simp add: path_component_def)
  have d: "delete_agent demo_host ''Bot1.yaml/x'' demo_fs = (Inl NotADirectoryError, demo_fs)"
    "delete_agent demo_host ''Ghost'' file_root_fs = (Inl NotADirectoryError, file_root_fs)"
    "delete_agent demo_host [CHR 0x00] demo_fs = (Inl ValueError, demo_fs)"
    using a r by (simp_all add: delete_agent_def os_remove_def Let_def)
  from a r f n d bad_names(2) show ?thesis
    by (simp add: path_exists_def)
qed

section \<open>Chat history and wiping memories\<close>

text \<open>
  C10. For every agent name whose memory document \<^verbatim>\<open>agents/<name>.yaml\<close> does not
  exist, \<^verbatim>\<open>get_chat_history\<close> returns the empty string, raises nothing and leaves the
  file system as it was: no file is created.
\<close>

theorem get_chat_history_missing:
  "\<not> path_exists H fs (chat_history_file agent_name)
     \<Longrightarrow> get_chat_history H agent_name fs = (Inr [], fs)"
  by (simp add: get_chat_history_def)

lemma demo_history_resolves:
  "resolve demo_host demo_fs (chat_history_file ''Ghost'') =
     Inr [''srv'', ''app'', ''agents'', ''Ghost.yaml'']"
  "resolve demo_host demo_fs (chat_history_file ''Bot1'') =
     Inr [''srv'', ''app'', ''agents'', ''Bot1.yaml'']"
  "resolve demo_host demo_fs (chat_history_file ''Bot1/memories/../../Bot1'') =
     Inr [''srv'', ''app'', ''agents'', ''Bot1.yaml'']"
  "resolve demo_host demo_fs (chat_history_file ''Bot1/memories/notes'') =
     Inr [''srv'', ''app'', ''agents'', ''Bot1'', ''memories'', ''notes.yaml'']"
  by (simp_all add: chat_history_file_def os_path_join_def join2_def resolve_def refused_def
      utf8_len_def start_dir_def isabs_def is_dir_def node_at_def not_a_dir_def demo_fs_def
      base_fs_def)

theorem get_chat_history_missing_witness:
  "\<not> path_exists demo_host demo_fs (chat_history_file ''Ghost'')
     \<and> get_chat_history demo_host ''Ghost'' demo_fs = (Inr [], demo_fs)"
proof -
  have h: "\<not> path_exists demo_host demo_fs (chat_history_file ''Ghost'')"
    by (simp add: path_exists_def demo_history_resolves node_at_def demo_entries)
  from h get_chat_history_missing [OF h] show ?thesis by simp
qed

lemma memories_folder_text:
  assumes "workdir_ok H fs" and "path_component n"
  shows "os_path_join (abspath H (''agents/'' @ n @ ''/'')) [''memories'']
           = render (memories_path H n)"
  using abspath_names(2) [OF workdir_okD(1) [OF assms(1)] assms(2)] join_memories [OF assms(2)]
  by simp

lemma memories_resolves:
  assumes "workdir_ok H fs" and "path_component n"
  shows "resolve H fs (render (memories_path H n)) =
     (if fs (agents_root H) = Some Dir then
        if fs (agent_folder H n) = Some Dir then Inr (memories_path H n)
        else Inl (not_a_dir fs (agent_folder H n))
      else Inl (not_a_dir fs (agents_root H)))"
proof -
  have "agent_folder H n @ [''memories''] = memories_path H n"
    by (simp add: agent_folder_def memories_path_def)
  with resolve_in_folder(2) [OF assms literal_components(3)] show ?thesis
    by (simp add: utf8_len_def under_folder_def)
qed

lemma wipe_agent_memories_valid:
  assumes "workdir_ok H fs" and "path_component n"
  shows "wipe_agent_memories H n fs =
     (if fs (agents_root H) = Some Dir \<and> fs (agent_folder H n) = Some Dir then
        (case fs (memories_path H n) of
           None \<Rightarrow> (Inr (), fs)
         | Some (File t) \<Rightarrow> (Inl NotADirectoryError, fs)
         | Some Dir \<Rightarrow> (Inr (), \<lambda>q. if is_under (memories_path H n) q then None else fs q))
      else (Inr (), fs))"
proof -
  have "wipe_agent_memories H n fs =
      (if path_exists H fs (render (memories_path H n))
       then shutil_rmtree H fs (render (memories_path H n)) else (Inr (), fs))"
    using memories_folder_text [OF assms] by (simp add: wipe_agent_memories_def Let_def)
  then show ?thesis
    by (auto simp: path_exists_def shutil_rmtree_def memories_resolves [OF assms]
        split: option.splits node.splits)
qed

lemma get_chat_history_valid:
  assumes "workdir_ok H fs" and "path_component (other @ ''.yaml'')"
  shows "get_chat_history H other fs =
     (if fs (agents_root H) = Some Dir then
        (case fs (memory_path H other) of
           None \<Rightarrow> Inr []
         | Some (File t) \<Rightarrow> Inr t
         | Some Dir \<Rightarrow> Inl IsADirectoryError)
      else Inr [], fs)"
  by (auto simp: get_chat_history_def join_yaml' [OF assms(2)] path_exists_def open_read_def
      resolve_memory'(1) [OF assms] split: option.splits node.splits)

lemma short_not_under: "length q < length d \<Longrightarrow> \<not> is_under d q"
  by (auto simp: is_under_def)

text \<open>
  C9, as the code has it. Take an agent name that is one path component and a working
  directory that is in place. \<^verbatim>\<open>wipe_agent_memories\<close> touches nothing outside
  \<^verbatim>\<open>agents/<name>/memories\<close>: every other path holds what it held. When it returns
  without raising, that folder does not exist, and where it was a directory everything
  below it is gone; where the path is a regular file \<^verbatim>\<open>rmtree\<close> raises and nothing
  changes. The memory document of every agent for which \<^verbatim>\<open><name>.yaml\<close> is one path
  component, the wiped one included, is unchanged, so \<^verbatim>\<open>get_chat_history\<close> returns
  after the wipe what it returned before.
\<close>

theorem wipe_agent_memories_frame:
  assumes "workdir_ok H fs" and "path_component agent_name"
    and "path_component (other @ ''.yaml'')"
    and "wipe_agent_memories H agent_name fs = (r, fs1)"
  shows "(\<forall>q. \<not> is_under (memories_path H agent_name) q \<longrightarrow> fs1 q = fs q)
     \<and> (r = Inr () \<longrightarrow> \<not> path_exists H fs1 (render (memories_path H agent_name)))
     \<and> (fs (agents_root H) = Some Dir \<and> fs (agent_folder H agent_name) = Some Dir
          \<and> fs (memories_path H agent_name) = Some Dir \<longrightarrow>
          r = Inr () \<and> (\<forall>q. is_under (memories_path H agent_name) q \<longrightarrow> fs1 q = None))
     \<and> fs1 (memory_path H other) = fs (memory_path H other)
     \<and> fst (get_chat_history H other fs1) = fst (get_chat_history H other fs)"
proof -
  note w = assms(4) [unfolded wipe_agent_memories_valid [OF assms(1,2)]]
  have frame: "\<forall>q. \<not> is_under (memories_path H agent_name) q \<longrightarrow> fs1 q = fs q"
    using w by (auto split: if_splits option.splits node.splits)
  have u: "\<not> is_under (memories_path H agent_name) (agents_root H)"
    "\<not> is_under (memories_path H agent_name) (agent_folder H agent_name)"
    "\<not> is_under (memories_path H agent_name) (memory_path H other)"
    by (rule short_not_under, simp add: memories_path_def agents_root_def agent_folder_def
        memory_path_def)+
  have s: "is_under (memories_path H agent_name) (memories_path H agent_name)"
    by (simp add: is_under_def)
  have ok1: "workdir_ok H fs1"
  proof (rule workdir_ok_cong [OF assms(1)])
    fix q :: path
    assume "length q \<le> length (cwd H)"
    then have "\<not> is_under (memories_path H agent_name) q"
      by (intro short_not_under) (simp add: memories_path_def)
    with frame show "fs1 q = fs q" by blast
  qed
  from frame u have same: "fs1 (agents_root H) = fs (agents_root H)"
    "fs1 (agent_folder H agent_name) = fs (agent_folder H agent_name)"
    "fs1 (memory_path H other) = fs (memory_path H other)"
    by blast+
  have gone: "r = Inr () \<longrightarrow> \<not> path_exists H fs1 (render (memories_path H agent_name))"
    using w s
    by (auto simp: path_exists_def memories_resolves [OF ok1 assms(2)]
        split: if_splits option.splits node.splits)
  have tree: "fs (agents_root H) = Some Dir \<and> fs (agent_folder H agent_name) = Some Dir
          \<and> fs (memories_path H agent_name) = Some Dir \<longrightarrow>
          r = Inr () \<and> (\<forall>q. is_under (memories_path H agent_name) q \<longrightarrow> fs1 q = None)"
    using w by auto
  have hist: "fst (get_chat_history H other fs1) = fst (get_chat_history H other fs)"
    by (simp add: get_chat_history_valid [OF ok1 assms(3)]
        get_chat_history_valid [OF assms(1,3)] same)
  from frame gone tree same(3) hist show ?thesis by blast
qed

theorem wipe_agent_memories_frame_witness:
  "workdir_ok demo_host demo_fs \<and> path_component ''Bot1'' \<and> path_component (''Bot1'' @ ''.yaml'')
     \<and> wipe_agent_memories demo_host ''Bot1'' demo_fs = (Inr (), demo_wiped)
     \<and> demo_fs [''srv'', ''app'', ''agents'', ''Bot1'', ''memories'', ''chroma.sqlite3'']
          = Some (File ''vectors'')
     \<and> demo_wiped [''srv'', ''app'', ''agents'', ''Bot1'', ''memories'', ''chroma.sqlite3''] = None
     \<and> demo_wiped [''srv'', ''app'', ''agents'', ''Bot1'', ''memories''] = None
     \<and> demo_wiped [''srv'', ''app'', ''agents'', ''Bot1'', ''config.json'']
          = demo_fs [''srv'', ''app'', ''agents'', ''Bot1'', ''config.json'']
     \<and> demo_wiped [''srv'', ''app'', ''agents'', ''Bot1.yaml''] = Some (File text_log0)
     \<and> get_chat_history demo_host ''Bot1'' demo_fs = (Inr text_log0, demo_fs)
     \<and> fst (get_chat_history demo_host ''Bot1'' demo_wiped) = Inr text_log0"
proof -
  have h: "wipe_agent_memories demo_host ''Bot1'' demo_fs = (Inr (), demo_wiped)"
    by (simp add: wipe_agent_memories_valid [OF workdir_ok_demo(2) names_ok(1)] demo_entries
        demo_wiped_def)
  have u1: "is_under (memories_path demo_host ''Bot1'')
      [''srv'', ''app'', ''agents'', ''Bot1'', ''memories'', ''chroma.sqlite3'']"
    and u2: "is_under (memories_path demo_host ''Bot1'')
      [''srv'', ''app'', ''agents'', ''Bot1'', ''memories'']"
    and u3: "\<not> is_under (memories_path demo_host ''Bot1'')
      [''srv'', ''app'', ''agents'', ''Bot1'', ''config.json'']"
    by (simp_all add: is_under_def)
  have c: "demo_fs [''srv'', ''app'', ''agents'', ''Bot1'', ''memories'', ''chroma.sqlite3'']
          = Some (File ''vectors'')"
    by (simp add: demo_fs_def)
  have g: "get_chat_history demo_host ''Bot1'' demo_fs = (Inr text_log0, demo_fs)"
    using get_chat_history_valid [OF workdir_ok_demo(2) names_ok(7)] by (simp add: demo_entries)
  from wipe_agent_memories_frame [OF workdir_ok_demo(2) names_ok(1) names_ok(7) h]
    workdir_ok_demo(2) names_ok(1) names_ok(7) u1 u2 u3 c g h demo_entries
  show ?thesis by simp
qed

text \<open>
  The claim as the specification states it, for every agent, fails for names that are not
  one path component. The agent \<^verbatim>\<open>Bot1/memories/../../Bot1\<close> has its memory document at
  \<^verbatim>\<open>agents/Bot1/memories/../../Bot1.yaml\<close>: wiping its memories removes the folder that
  this path runs through, and its chat history turns from the text of the document into
  the empty string. And the agent \<^verbatim>\<open>Bot1/memories/notes\<close> has its memory document inside
  the memories folder of \<^verbatim>\<open>Bot1\<close>: wiping the memories of \<^verbatim>\<open>Bot1\<close> removes it.
\<close>

theorem wipe_agent_memories_frame_counterexample:
  "\<not> path_component ''Bot1/memories/../../Bot1''
     \<and> get_chat_history demo_host ''Bot1/memories/../../Bot1'' demo_fs = (Inr text_log0, demo_fs)
     \<and> wipe_agent_memories demo_host ''Bot1/memories/../../Bot1'' demo_fs = (Inr (), demo_wiped)
     \<and> get_chat_history demo_host ''Bot1/memories/../../Bot1'' demo_wiped = (Inr [], demo_wiped)
     \<and> text_log0 \<noteq> []
     \<and> \<not> path_component (''Bot1/memories/notes'' @ ''.yaml'')
     \<and> get_chat_history demo_host ''Bot1/memories/notes'' demo_fs = (Inr text_log1, demo_fs)
     \<and> wipe_agent_memories demo_host ''Bot1'' demo_fs = (Inr (), demo_wiped)
     \<and> get_chat_history demo_host ''Bot1/memories/notes'' demo_wiped = (Inr [], demo_wiped)
     \<and> text_log1 \<noteq> []"
proof -
  have e: "demo_fs [''srv'', ''app'', ''agents'', ''Bot1'', ''memories'', ''notes.yaml'']
      = Some (File text_log1)"
    by (simp add: demo_fs_def)
  have g: "get_chat_history demo_host ''Bot1/memories/../../Bot1'' demo_fs = (Inr text_log0, demo_fs)"
    "get_chat_history demo_host ''Bot1/memories/notes'' demo_fs = (Inr text_log1, demo_fs)"
    by (simp_all add: get_chat_history_def path_exists_def open_read_def demo_history_resolves
        node_at_def demo_entries e)
  have m: "os_path_join (abspath demo_host (''agents/'' @ ''Bot1/memories/../../Bot1'' @ ''/''))
      [''memories''] = ''/srv/app/agents/Bot1/memories''"
    by (simp add: abspath_def isabs_def normpath_def getcwd_def os_path_join_def join2_def
        Let_def)
  have r: "resolve demo_host demo_fs ''/srv/app/agents/Bot1/memories'' =
      Inr [''srv'', ''app'', ''agents'', ''Bot1'', ''memories'']"
    by (simp add: resolve_def refused_def utf8_len_def start_dir_def isabs_def is_dir_def
        node_at_def not_a_dir_def demo_fs_def base_fs_def)
  have w1: "wipe_agent_memories demo_host ''Bot1/memories/../../Bot1'' demo_fs = (Inr (), demo_wiped)"
    using m by (simp add: wipe_agent_memories_def Let_def path_exists_def shutil_rmtree_def r
        node_at_def demo_entries demo_wiped_def)
  have w2: "wipe_agent_memories demo_host ''Bot1'' demo_fs = (Inr (), demo_wiped)"
    by (simp add: wipe_agent_memories_valid [OF workdir_ok_demo(2) names_ok(1)] demo_entries
        demo_wiped_def)
  have r': "resolve demo_host demo_wiped (chat_history_file ''Bot1/memories/../../Bot1'') =
      Inl FileNotFoundError"
    "resolve demo_host demo_wiped (chat_history_file ''Bot1/memories/notes'') =
      Inl FileNotFoundError"
    by (simp_all add: chat_history_file_def os_path_join_def join2_def resolve_def refused_def
      utf8_len_def start_dir_def isabs_def is_dir_def node_at_def not_a_dir_def demo_wiped_def
      is_under_def demo_fs_def base_fs_def)
  have g': "get_chat_history demo_host ''Bot1/memories/../../Bot1'' demo_wiped = (Inr [], demo_wiped)"
    "get_chat_history demo_host ''Bot1/memories/notes'' demo_wiped = (Inr [], demo_wiped)"
    by (simp_all add: get_chat_history_def path_exists_def r')
  have t: "text_log0 \<noteq> []" "text_log1 \<noteq> []"
    by (simp_all add: text_log0_def text_log1_def)
  have n: "\<not> path_component (''Bot1/memories/notes'' @ ''.yaml'')"
    by (simp add: path_component_def)
  from bad_names(3) g w1 w2 g' t n show ?thesis by simp
qed

section \<open>The interaction log\<close>












end
